theory Spec2Isabelle
  imports Complex_Main
begin

section \<open>The salary calculator of hr\_salary\<close>

text \<open>
  The calculator (\<^verbatim>\<open>utils/salaryCalculator.ts\<close>) is written in TypeScript: every
  quantity is a \<^verbatim>\<open>number\<close>, an IEEE 754 binary64 value. The model below keeps that:
  a number is a finite value (a rational, which for a value the program can hold is a
  binary64 value), the negative zero, one of the two infinities, or NaN, and every
  arithmetic operation rounds its exact result to the nearest binary64 value, ties to
  even, as the language does.
\<close>

subsection \<open>Numbers\<close>

datatype number = Fin rat | NegZero | PInf | NInf | NaN

text \<open>\<open>Fin 0\<close> is the positive zero. \<open>ilog2 n\<close> is the position of the highest set bit
  of a positive integer.\<close>

function ilog2 :: "int \<Rightarrow> int" where
  "ilog2 n = (if n < 2 then 0 else 1 + ilog2 (n div 2))"
  by pat_completeness auto
termination
  by (relation "measure nat") auto

declare ilog2.simps [simp del]

text \<open>The binary exponent of a positive rational \<open>v\<close>: \<open>2 ^ expo v \<le> v < 2 ^ (expo v + 1)\<close>.\<close>

definition expo :: "rat \<Rightarrow> int" where
  "expo v = (let (p, q) = quotient_of v;
                 c = ilog2 p - ilog2 q
             in if 2 powi c \<le> v then c else c - 1)"

text \<open>Rounding a rational to the nearest integer, a tie going to the even one.\<close>

definition rhe :: "rat \<Rightarrow> int" where
  "rhe m = (let f = \<lfloor>m\<rfloor>; d = m - of_int f
            in if d < 1 / 2 then f
               else if 1 / 2 < d then f + 1
               else if even f then f else f + 1)"

text \<open>The exponent of the unit in the last place: 53 significant bits, and the exponent
  of a normal value is at least \<open>-1022\<close> (below that, values are subnormal and share the
  spacing \<open>2 ^ -1074\<close>).\<close>

definition ulp_exp :: "rat \<Rightarrow> int" where
  "ulp_exp v = max (expo v) (- 1022) - 52"

definition round_mag :: "rat \<Rightarrow> rat" where
  "round_mag v = (if v = 0 then 0
                  else of_int (rhe (v / 2 powi ulp_exp v)) * 2 powi ulp_exp v)"

text \<open>The largest finite value is \<open>2 ^ 1024 - 2 ^ 971\<close>; a magnitude that rounds to
  \<open>2 ^ 1024\<close> or more overflows.\<close>

definition overflow_bound :: rat where
  "overflow_bound = 2 powi 1024"

text \<open>\<open>rnd s v\<close> is the binary64 value of the exact result \<open>v\<close>; \<open>s\<close> is the sign that an
  exact zero takes.\<close>

definition rnd :: "bool \<Rightarrow> rat \<Rightarrow> number" where
  "rnd s v = (let r = round_mag \<bar>v\<bar>
              in if overflow_bound \<le> r then (if v < 0 then NInf else PInf)
                 else if r = 0 then (if (if v = 0 then s else v < 0) then NegZero else Fin 0)
                 else Fin (if v < 0 then - r else r))"

text \<open>A decimal literal of the source denotes the nearest binary64 value.\<close>

definition lit :: "rat \<Rightarrow> number" where
  "lit q = rnd False q"

fun is_finite :: "number \<Rightarrow> bool" where
  "is_finite (Fin q) = True"
| "is_finite NegZero = True"
| "is_finite _ = False"

fun val :: "number \<Rightarrow> rat" where
  "val (Fin q) = q"
| "val _ = 0"

fun sign_bit :: "number \<Rightarrow> bool" where
  "sign_bit (Fin q) = (q < 0)"
| "sign_bit NegZero = True"
| "sign_bit NInf = True"
| "sign_bit _ = False"

definition inf_of :: "bool \<Rightarrow> number" where
  "inf_of s = (if s then NInf else PInf)"

definition zero_of :: "bool \<Rightarrow> number" where
  "zero_of s = (if s then NegZero else Fin 0)"

definition is_zero :: "number \<Rightarrow> bool" where
  "is_zero x = (is_finite x \<and> val x = 0)"

fun negate :: "number \<Rightarrow> number" where
  "negate (Fin q) = (if q = 0 then NegZero else Fin (- q))"
| "negate NegZero = Fin 0"
| "negate PInf = NInf"
| "negate NInf = PInf"
| "negate NaN = NaN"

text \<open>The operators \<^verbatim>\<open>+\<close>, \<^verbatim>\<open>-\<close>, \<^verbatim>\<open>*\<close> and \<^verbatim>\<open>/\<close> on numbers.\<close>

definition num_add :: "number \<Rightarrow> number \<Rightarrow> number" where
  "num_add x y =
     (if x = NaN \<or> y = NaN then NaN
      else if is_finite x \<and> is_finite y then rnd (sign_bit x \<and> sign_bit y) (val x + val y)
      else if is_finite y then x
      else if is_finite x then y
      else if x = y then x else NaN)"

definition num_sub :: "number \<Rightarrow> number \<Rightarrow> number" where
  "num_sub x y = num_add x (negate y)"

definition num_mul :: "number \<Rightarrow> number \<Rightarrow> number" where
  "num_mul x y =
     (if x = NaN \<or> y = NaN then NaN
      else if is_finite x \<and> is_finite y then rnd (sign_bit x \<noteq> sign_bit y) (val x * val y)
      else if is_zero x \<or> is_zero y then NaN
      else inf_of (sign_bit x \<noteq> sign_bit y))"

definition num_div :: "number \<Rightarrow> number \<Rightarrow> number" where
  "num_div x y =
     (if x = NaN \<or> y = NaN then NaN
      else if is_finite x \<and> is_finite y then
        (if is_zero y then (if is_zero x then NaN else inf_of (sign_bit x \<noteq> sign_bit y))
         else rnd (sign_bit x \<noteq> sign_bit y) (val x / val y))
      else if is_finite y then inf_of (sign_bit x \<noteq> sign_bit y)
      else if is_finite x then zero_of (sign_bit x \<noteq> sign_bit y)
      else NaN)"

text \<open>The comparisons \<^verbatim>\<open><\<close>, \<^verbatim>\<open><=\<close>, \<^verbatim>\<open>>\<close>, \<^verbatim>\<open>>=\<close> and \<^verbatim>\<open>==\<close>: false as soon as an
  operand is NaN, and the two zeros are equal.\<close>

fun num_lt :: "number \<Rightarrow> number \<Rightarrow> bool" where
  "num_lt NaN _ = False"
| "num_lt _ NaN = False"
| "num_lt _ NInf = False"
| "num_lt NInf _ = True"
| "num_lt PInf _ = False"
| "num_lt _ PInf = True"
| "num_lt x y = (val x < val y)"

fun num_le :: "number \<Rightarrow> number \<Rightarrow> bool" where
  "num_le NaN _ = False"
| "num_le _ NaN = False"
| "num_le NInf _ = True"
| "num_le _ NInf = False"
| "num_le _ PInf = True"
| "num_le PInf _ = False"
| "num_le x y = (val x \<le> val y)"

definition num_gt :: "number \<Rightarrow> number \<Rightarrow> bool" where
  "num_gt x y = num_lt y x"

definition num_ge :: "number \<Rightarrow> number \<Rightarrow> bool" where
  "num_ge x y = num_le y x"

definition num_eq :: "number \<Rightarrow> number \<Rightarrow> bool" where
  "num_eq x y = (num_le x y \<and> num_le y x)"

text \<open>\<^verbatim>\<open>Math.max\<close> and \<^verbatim>\<open>Math.min\<close> of two arguments: NaN if an argument is NaN, and the
  positive zero is the larger zero.\<close>

definition Math_max :: "number \<Rightarrow> number \<Rightarrow> number" where
  "Math_max x y =
     (if x = NaN \<or> y = NaN then NaN
      else if num_lt x y then y
      else if num_lt y x then x
      else if is_zero x \<and> is_zero y then zero_of (sign_bit x \<and> sign_bit y)
      else x)"

definition Math_min :: "number \<Rightarrow> number \<Rightarrow> number" where
  "Math_min x y =
     (if x = NaN \<or> y = NaN then NaN
      else if num_lt x y then x
      else if num_lt y x then y
      else if is_zero x \<and> is_zero y then zero_of (sign_bit x \<or> sign_bit y)
      else x)"

subsection \<open>The tax slabs and the annual tax\<close>

record TaxSlab =
  upto :: "number option"
  rate :: number

definition TAX_SLABS :: "TaxSlab list" where
  "TAX_SLABS =
     [\<lparr>upto = Some (Fin 250000), rate = Fin 0\<rparr>,
      \<lparr>upto = Some (Fin 500000), rate = lit (5 / 100)\<rparr>,
      \<lparr>upto = Some (Fin 1000000), rate = lit (2 / 10)\<rparr>,
      \<lparr>upto = None, rate = lit (3 / 10)\<rparr>]"

text \<open>The loop of \<^verbatim>\<open>calculateAnnualTax\<close> over the slabs that are left, with its three
  variables; \<^verbatim>\<open>break\<close> returns the tax accumulated so far.\<close>

fun taxLoop :: "TaxSlab list \<Rightarrow> number \<Rightarrow> number \<Rightarrow> number \<Rightarrow> number" where
  "taxLoop [] remainingIncome tax lastUpper = tax"
| "taxLoop (slab # slabs) remainingIncome tax lastUpper =
     (case upto slab of
        Some u \<Rightarrow>
          (let taxableIncome =
                 Math_max (Fin 0) (Math_min remainingIncome (num_sub u lastUpper));
               tax' = num_add tax (num_mul taxableIncome (rate slab));
               remainingIncome' = num_sub remainingIncome taxableIncome
           in if num_le remainingIncome' (Fin 0) then tax'
              else taxLoop slabs remainingIncome' tax' u)
      | None \<Rightarrow> num_add tax (num_mul remainingIncome (rate slab)))"

definition calculateAnnualTax :: "number \<Rightarrow> number" where
  "calculateAnnualTax annualIncome = taxLoop TAX_SLABS annualIncome (Fin 0) (Fin 0)"

subsection \<open>The monthly salary\<close>

record Attendance =
  date :: string
  hoursWorked :: number

record SalaryCalculationParams =
  basic :: number
  hra :: number
  allowances :: number
  workingDaysInMonth :: number
  attendances :: "Attendance list"
  otherDeductions :: "number option"

text \<open>The attendance loop. The two counters start at 0 and grow by one per record, so
  they hold exact integers (an array has fewer than \<open>2 ^ 32\<close> elements, far below \<open>2 ^ 53\<close>):
  they are natural numbers here, and \<open>count\<close> is their value as a number.\<close>

fun countDays :: "Attendance list \<Rightarrow> nat \<Rightarrow> nat \<Rightarrow> nat \<times> nat" where
  "countDays [] fullDays halfDays = (fullDays, halfDays)"
| "countDays (attendance # rest) fullDays halfDays =
     (if num_ge (hoursWorked attendance) (Fin 8) then countDays rest (fullDays + 1) halfDays
      else if num_gt (hoursWorked attendance) (Fin 0) then countDays rest fullDays (halfDays + 1)
      else countDays rest fullDays halfDays)"

definition count :: "nat \<Rightarrow> number" where
  "count n = Fin (of_nat n)"

record SalaryBreakdown =
  grossMonthly :: number
  fullDays :: nat
  halfDays :: nat
  dailyWage :: number
  totalSalary :: number
  tax :: number
  pf :: number
  otherDeductions :: number
  netSalary :: number

text \<open>The local constants of \<^verbatim>\<open>calculateMonthlySalary\<close> carry a prime where their name
  is also a field of the result.\<close>

definition calculateMonthlySalary :: "SalaryCalculationParams \<Rightarrow> SalaryBreakdown" where
  "calculateMonthlySalary params =
     (let otherDeductions' =
            (case SalaryCalculationParams.otherDeductions params of
               None \<Rightarrow> Fin 0 | Some d \<Rightarrow> d);
          grossMonthly' = num_add (num_add (basic params) (hra params)) (allowances params);
          pf' = num_mul (basic params) (lit (12 / 100));
          (fullDays', halfDays') = countDays (attendances params) 0 0;
          dailyWage' = num_div grossMonthly' (workingDaysInMonth params);
          fullDaySalary = dailyWage';
          halfDaySalary = num_div dailyWage' (Fin 2);
          totalSalary' =
            num_add (num_mul (count fullDays') fullDaySalary)
                    (num_mul (count halfDays') halfDaySalary);
          annualIncome = num_mul grossMonthly' (Fin 12);
          annualTax = calculateAnnualTax annualIncome;
          monthlyTax = num_div annualTax (Fin 12);
          netSalary' = num_sub (num_sub (num_sub totalSalary' monthlyTax) pf') otherDeductions'
      in \<lparr>grossMonthly = grossMonthly',
          fullDays = fullDays',
          halfDays = halfDays',
          dailyWage = dailyWage',
          totalSalary = totalSalary',
          tax = monthlyTax,
          pf = pf',
          otherDeductions = otherDeductions',
          netSalary = netSalary'\<rparr>)"

subsection \<open>The end-to-end scenario of the specification\<close>

text \<open>Twenty full days, two half days, 22 working days and other deductions of 1000.\<close>

definition scenario :: SalaryCalculationParams where
  "scenario =
     \<lparr>basic = Fin 50000, hra = Fin 10000, allowances = Fin 5000,
      workingDaysInMonth = Fin 22,
      attendances =
        replicate 20 \<lparr>date = ''2024-01-01'', hoursWorked = Fin 8\<rparr> @
        replicate 2 \<lparr>date = ''2024-01-02'', hoursWorked = Fin 4\<rparr>,
      otherDeductions = Some (Fin 1000)\<rparr>"

subsection \<open>Reference notions of the specification\<close>

text \<open>These are not part of the program: they state what the specification asks of
  the slab table and of the tax at a slab boundary.

  The bounded upper bounds increase strictly from the given lower bound, the last slab
  and only the last is unbounded: with each slab starting where the one before it ends,
  the slabs cover everything above the lower bound without a gap or an overlap.\<close>

fun slab_bounds_ok :: "number \<Rightarrow> TaxSlab list \<Rightarrow> bool" where
  "slab_bounds_ok lower [] = False"
| "slab_bounds_ok lower (slab # slabs) =
     (case upto slab of
        Some u \<Rightarrow> num_lt lower u \<and> slab_bounds_ok u slabs
      | None \<Rightarrow> slabs = [])"

text \<open>The tax of an income that fills every bracket of the given bounded slabs: the sum,
  bracket after bracket, of width times rate.\<close>

fun full_bracket_tax :: "TaxSlab list \<Rightarrow> number \<Rightarrow> number \<Rightarrow> number" where
  "full_bracket_tax [] lower acc = acc"
| "full_bracket_tax (slab # slabs) lower acc =
     (case upto slab of
        Some u \<Rightarrow> full_bracket_tax slabs u (num_add acc (num_mul (num_sub u lower) (rate slab)))
      | None \<Rightarrow> acc)"

text \<open>Two results are the same number when they are equal or are both a zero (the two
  zeros are equal for \<^verbatim>\<open>==\<close> and \<^verbatim>\<open>===\<close>).\<close>

definition same_num :: "number \<Rightarrow> number \<Rightarrow> bool" where
  "same_num x y = (x = y \<or> (is_zero x \<and> is_zero y))"

subsection \<open>An input whose gross salary overflows\<close>

text \<open>\<open>2 ^ 1023\<close> is a binary64 value, and twice that value is not: the sum of a
  basic salary and a house rent allowance of that amount is \<^verbatim>\<open>Infinity\<close>.\<close>

definition huge :: rat where
  "huge = 2 powi 1023"

definition overflow_params :: SalaryCalculationParams where
  "overflow_params =
     \<lparr>basic = Fin huge, hra = Fin huge, allowances = Fin 0,
      workingDaysInMonth = Fin 22, attendances = [],
      otherDeductions = None\<rparr>"

subsection \<open>Auxiliary notions for the proofs\<close>

text \<open>The non-negative numbers (\<^verbatim>\<open>0 <= x\<close>), the numbers that rounding leaves unchanged,
  the income taxed in a bracket of width \<open>w\<close>, and the slab tables whose brackets have a
  positive finite width and a non-negative finite rate (a positive one in the unbounded
  slab).\<close>

definition nn :: "number \<Rightarrow> bool" where
  "nn x = num_le (Fin 0) x"

definition is_double :: "number \<Rightarrow> bool" where
  "is_double x = (case x of Fin q \<Rightarrow> rnd False q = Fin q | _ \<Rightarrow> True)"

definition taxable :: "number \<Rightarrow> rat \<Rightarrow> rat" where
  "taxable r w = (if r = PInf then w else min (val r) w)"

fun slabs_ok :: "number \<Rightarrow> TaxSlab list \<Rightarrow> bool" where
  "slabs_ok lastUpper [] = True"
| "slabs_ok lastUpper (slab # slabs) =
     (case upto slab of
        Some u \<Rightarrow>
          (case num_sub u lastUpper of Fin w \<Rightarrow> 0 < w | _ \<Rightarrow> False) \<and>
          (case rate slab of Fin c \<Rightarrow> 0 \<le> c | _ \<Rightarrow> False) \<and>
          slabs_ok u slabs
      | None \<Rightarrow> (case rate slab of Fin c \<Rightarrow> 0 < c | _ \<Rightarrow> False))"

section \<open>Properties of rounding\<close>

lemma ilog2_nonneg: "0 \<le> ilog2 n"
  by (induction n rule: ilog2.induct) (subst ilog2.simps, simp)

lemma ilog2_bounds_int:
  "0 < n \<Longrightarrow> 2 ^ nat (ilog2 n) \<le> n \<and> n < 2 * 2 ^ nat (ilog2 n)"
proof (induction n rule: ilog2.induct)
  case (1 n)
  show ?case
  proof (cases "n < 2")
    case True
    with "1.prems" have "n = 1" by simp
    then show ?thesis by (subst (1 2) ilog2.simps) simp
  next
    case False
    then have pos: "0 < n div 2" by simp
    let ?k = "nat (ilog2 (n div 2))"
    from "1.IH" [OF False pos] have lo: "2 ^ ?k \<le> n div 2" and hi: "n div 2 < 2 * 2 ^ ?k"
      by simp_all
    have eq: "nat (ilog2 n) = Suc ?k"
      using False ilog2_nonneg [of "n div 2"] by (subst ilog2.simps) simp
    have "2 * 2 ^ ?k \<le> n" using lo by simp
    moreover have "n < 2 * (2 * 2 ^ ?k)" using hi by simp
    ultimately show ?thesis unfolding eq by simp
  qed
qed

lemma ilog2_bounds:
  assumes "0 < n"
  shows "(2::rat) powi (ilog2 n) \<le> of_int n" and "(of_int n :: rat) < 2 powi (ilog2 n + 1)"
proof -
  obtain k where k: "ilog2 n = int k"
    using ilog2_nonneg [of n] zero_le_imp_eq_int by blast
  from ilog2_bounds_int [OF assms] have lo: "2 ^ k \<le> n" and hi: "n < 2 * 2 ^ k"
    by (simp_all add: k)
  have "(of_int (2 ^ k) :: rat) \<le> of_int n" using lo by (simp only: of_int_le_iff)
  then show "(2::rat) powi (ilog2 n) \<le> of_int n"
    by (simp add: k power_int_of_nat)
  have "(of_int n :: rat) < of_int (2 * 2 ^ k)" using hi by (simp only: of_int_less_iff)
  then show "(of_int n :: rat) < 2 powi (ilog2 n + 1)"
    by (simp add: k power_int_add_1 power_int_of_nat)
qed

lemma powi2_mono: "a \<le> b \<Longrightarrow> (2::rat) powi a \<le> 2 powi b"
  by (rule power_int_increasing) simp_all

lemma powi2_pos: "0 < (2::rat) powi a"
  by simp

lemma powi2_less_cancel: "(2::rat) powi a < 2 powi b \<Longrightarrow> a < b"
  by (rule ccontr) (use powi2_mono [of b a] in simp)

lemma expo_bounds:
  assumes "0 < v"
  shows "2 powi (expo v) \<le> v" and "v < 2 powi (expo v + 1)"
proof -
  obtain p q where pq: "quotient_of v = (p, q)" by (cases "quotient_of v")
  then have q: "0 < q" and v: "v = of_int p / of_int q"
    by (simp_all add: quotient_of_denom_pos quotient_of_div)
  with assms have p: "0 < p" by (simp add: zero_less_divide_iff)
  let ?c = "ilog2 p - ilog2 q"
  have qr: "(0::rat) < of_int q" using q by simp
  have lo: "2 powi (?c - 1) \<le> v"
  proof -
    have "(2::rat) powi (?c - 1) = 2 powi (ilog2 p) / 2 powi (ilog2 q + 1)"
      by (simp add: power_int_diff power_int_add_1)
    also have "\<dots> \<le> of_int p / of_int q"
      using ilog2_bounds [OF p] ilog2_bounds [OF q] qr p
      by (intro frac_le) (simp_all add: less_imp_le)
    finally show ?thesis using v by simp
  qed
  have hi: "v < 2 powi (?c + 1)"
  proof -
    have "v = of_int p / of_int q" by (rule v)
    also have "\<dots> < 2 powi (ilog2 p + 1) / 2 powi (ilog2 q)"
      using ilog2_bounds [OF p] ilog2_bounds [OF q] qr p
      by (intro frac_less) simp_all
    also have "\<dots> = 2 powi (?c + 1)"
      by (simp add: power_int_diff power_int_add_1)
    finally show ?thesis .
  qed
  show "2 powi (expo v) \<le> v" using lo by (simp add: expo_def pq Let_def)
  show "v < 2 powi (expo v + 1)" using hi by (auto simp add: expo_def pq Let_def not_le)
qed

lemma expo_unique:
  assumes "0 < v" "2 powi e \<le> v" "v < 2 powi (e + 1)"
  shows "expo v = e"
proof -
  from expo_bounds [OF assms(1)] assms(2,3)
  have "(2::rat) powi (expo v) < 2 powi (e + 1)" "(2::rat) powi e < 2 powi (expo v + 1)"
    by linarith+
  then have "expo v < e + 1" "e < expo v + 1" by (auto dest: powi2_less_cancel)
  then show ?thesis by simp
qed

lemma rhe_of_int: "rhe (of_int n) = n"
  by (simp add: rhe_def)

lemma rhe_lower: "\<lfloor>m\<rfloor> \<le> rhe m"
  by (simp add: rhe_def Let_def)

lemma rhe_upper: "rhe m \<le> \<lfloor>m\<rfloor> + 1"
  by (simp add: rhe_def Let_def)

lemma rhe_mono:
  assumes "a \<le> b"
  shows "rhe a \<le> rhe b"
proof (cases "\<lfloor>a\<rfloor> = \<lfloor>b\<rfloor>")
  case True
  with assms have "a - of_int \<lfloor>a\<rfloor> \<le> b - of_int \<lfloor>b\<rfloor>" by simp
  with True show ?thesis by (auto simp add: rhe_def Let_def)
next
  case False
  with assms have "\<lfloor>a\<rfloor> < \<lfloor>b\<rfloor>" using floor_mono [OF assms] by simp
  then have "rhe a \<le> \<lfloor>b\<rfloor>" using rhe_upper [of a] by simp
  then show ?thesis using rhe_lower [of b] by simp
qed

lemma rhe_ge_int: "of_int n \<le> m \<Longrightarrow> n \<le> rhe m"
  using rhe_mono [of "of_int n" m] by (simp add: rhe_of_int)

lemma rhe_le_int: "m \<le> of_int n \<Longrightarrow> rhe m \<le> n"
  using rhe_mono [of m "of_int n"] by (simp add: rhe_of_int)

lemma round_mag_pos: "v \<noteq> 0 \<Longrightarrow> round_mag v = of_int (rhe (v / 2 powi ulp_exp v)) * 2 powi ulp_exp v"
  by (simp add: round_mag_def)

lemma round_mag_zero: "round_mag 0 = 0"
  by (simp add: round_mag_def)

lemma round_mag_nonneg: "0 \<le> v \<Longrightarrow> 0 \<le> round_mag v"
proof (cases "v = 0")
  case False
  assume "0 \<le> v"
  then have "of_int 0 \<le> v / 2 powi ulp_exp v" by simp
  then have "0 \<le> rhe (v / 2 powi ulp_exp v)" by (rule rhe_ge_int)
  then show ?thesis using False by (simp add: round_mag_pos)
qed (simp add: round_mag_zero)

text \<open>A positive value rounds to a value inside the closed binade that contains it.\<close>

lemma round_mag_binade:
  assumes "0 < v" and e: "e = max (expo v) (- 1022)"
  shows "round_mag v \<le> 2 powi (e + 1)" and "- 1022 \<le> expo v \<Longrightarrow> 2 powi e \<le> round_mag v"
proof -
  let ?u = "(2::rat) powi (e - 52)"
  have u: "ulp_exp v = e - 52" by (simp add: ulp_exp_def e)
  have upos: "0 < ?u" by simp
  have "v < 2 powi (expo v + 1)" using expo_bounds(2) [OF assms(1)] .
  also have "\<dots> \<le> 2 powi (e + 1)" by (rule powi2_mono) (simp add: e)
  finally have "v / ?u \<le> 2 powi (e + 1) / ?u"
    by (intro divide_right_mono) simp_all
  also have "\<dots> = of_int (2 ^ 53)" by (simp add: power_int_diff flip: power_int_diff)
  finally have n_le: "rhe (v / ?u) \<le> 2 ^ 53" by (rule rhe_le_int)
  have "round_mag v = of_int (rhe (v / ?u)) * ?u"
    using assms(1) by (simp add: round_mag_pos u)
  also have "\<dots> \<le> of_int (2 ^ 53) * ?u"
    using n_le by (intro mult_right_mono) (simp_all only: of_int_le_iff, simp)
  also have "of_int (2 ^ 53) * ?u = 2 powi (e + 1)"
    by (simp add: power_int_diff power_int_add)
  finally show "round_mag v \<le> 2 powi (e + 1)" .
  assume "- 1022 \<le> expo v"
  then have ee: "e = expo v" by (simp add: e)
  have "2 powi e \<le> v" using expo_bounds(1) [OF assms(1)] by (simp add: ee)
  then have "2 powi e / ?u \<le> v / ?u"
    by (intro divide_right_mono) simp_all
  moreover have "2 powi e / ?u = of_int (2 ^ 52)" by (simp add: power_int_diff)
  ultimately have "of_int (2 ^ 52) \<le> v / ?u" by simp
  then have n_ge: "2 ^ 52 \<le> rhe (v / ?u)" by (rule rhe_ge_int)
  have "2 powi e = of_int (2 ^ 52) * ?u"
    by (simp add: power_int_diff)
  also have "\<dots> \<le> of_int (rhe (v / ?u)) * ?u"
    using n_ge by (intro mult_right_mono) (simp_all only: of_int_le_iff, simp)
  also have "\<dots> = round_mag v"
    using assms(1) by (simp add: round_mag_pos u)
  finally show "2 powi e \<le> round_mag v" .
qed

lemma expo_mono:
  assumes "0 < v" "v \<le> w"
  shows "expo v \<le> expo w"
proof (rule ccontr)
  assume "\<not> expo v \<le> expo w"
  then have "expo w + 1 \<le> expo v" by simp
  then have "(2::rat) powi (expo w + 1) \<le> 2 powi (expo v)" by (rule powi2_mono)
  moreover have "0 < w" using assms by simp
  ultimately show False
    using expo_bounds(1) [OF assms(1)] expo_bounds(2) [of w] assms(2) by linarith
qed

lemma round_mag_mono:
  assumes "0 \<le> v" "v \<le> w"
  shows "round_mag v \<le> round_mag w"
proof (cases "v = 0")
  case True
  then show ?thesis using assms round_mag_nonneg [of w] by (simp add: round_mag_zero)
next
  case False
  with assms have v: "0 < v" and w: "0 < w" by simp_all
  let ?e1 = "max (expo v) (- 1022)" and ?e2 = "max (expo w) (- 1022)"
  have le: "?e1 \<le> ?e2" using expo_mono [OF v assms(2)] by simp
  show ?thesis
  proof (cases "?e1 = ?e2")
    case True
    then have u: "ulp_exp v = ulp_exp w" by (simp add: ulp_exp_def)
    have "v / 2 powi ulp_exp w \<le> w / 2 powi ulp_exp w"
      using assms(2) by (intro divide_right_mono) simp_all
    then have "rhe (v / 2 powi ulp_exp w) \<le> rhe (w / 2 powi ulp_exp w)" by (rule rhe_mono)
    then have "of_int (rhe (v / 2 powi ulp_exp w)) * 2 powi ulp_exp w
        \<le> of_int (rhe (w / 2 powi ulp_exp w)) * (2::rat) powi ulp_exp w"
      by (intro mult_right_mono) (simp_all only: of_int_le_iff, simp)
    then show ?thesis using v w by (simp add: round_mag_pos u)
  next
    case False
    with le have lt: "?e1 + 1 \<le> ?e2" by simp
    then have norm: "- 1022 \<le> expo w" by simp
    have "round_mag v \<le> 2 powi (?e1 + 1)" by (rule round_mag_binade(1) [OF v refl])
    also have "\<dots> \<le> 2 powi ?e2" using lt by (rule powi2_mono)
    also have "\<dots> \<le> round_mag w" by (rule round_mag_binade(2) [OF w refl norm])
    finally show ?thesis .
  qed
qed

text \<open>Every value \<open>n * 2 ^ k\<close> with at most 53 significant bits and an exponent in range
  is a fixed point of rounding.\<close>

lemma round_mag_exact:
  assumes n: "0 \<le> n" "n \<le> 2 ^ 53" and k: "- 1074 \<le> k"
  shows "round_mag (of_int n * 2 powi k) = of_int n * 2 powi k"
proof (cases "n = 0")
  case True
  then show ?thesis by (simp add: round_mag_zero)
next
  case False
  let ?v = "of_int n * (2::rat) powi k"
  from False n have npos: "0 < n" by simp
  then have v: "0 < ?v" by simp
  let ?j = "ulp_exp ?v"
  have "\<exists>m. ?v / 2 powi ?j = of_int m"
  proof (cases "n = 2 ^ 53")
    case True
    then have vv: "?v = 2 powi (k + 53)" by (simp add: power_int_add)
    have "expo ?v = k + 53"
      by (rule expo_unique [OF v]) (simp_all add: vv power_int_add)
    then have "?j = k + 1" using k by (simp add: ulp_exp_def)
    then have "?v / 2 powi ?j = of_int (2 ^ 52)"
      by (simp add: vv power_int_add)
    then show ?thesis by blast
  next
    case False
    with n have lt: "n < 2 ^ 53" by simp
    have "?j \<le> k"
    proof (rule ccontr)
      assume "\<not> ?j \<le> k"
      with k have "k + 53 \<le> expo ?v" by (simp add: ulp_exp_def)
      then have "(2::rat) powi (k + 53) \<le> 2 powi (expo ?v)" by (rule powi2_mono)
      also have "\<dots> \<le> ?v" by (rule expo_bounds(1) [OF v])
      finally have "(2::rat) powi k * of_int (2 ^ 53) \<le> 2 powi k * of_int n"
        by (simp add: power_int_add mult.commute)
      then have "(of_int (2 ^ 53) :: rat) \<le> of_int n"
        by (simp only: mult_le_cancel_left_pos powi2_pos)
      then have "2 ^ 53 \<le> n" by (simp only: of_int_le_iff)
      with lt show False by simp
    qed
    then have "0 \<le> k - ?j" by simp
    then obtain d where d: "k - ?j = int d" using zero_le_imp_eq_int by blast
    have "?v / 2 powi ?j = of_int n * (2 powi k / 2 powi ?j)" by simp
    also have "2 powi k / 2 powi ?j = (2::rat) powi (k - ?j)"
      by (simp add: power_int_diff)
    also have "\<dots> = 2 powi (int d)"
      by (simp only: d)
    also have "of_int n * (2::rat) powi (int d) = of_int (n * 2 ^ d)"
      by (simp add: power_int_of_nat)
    finally show ?thesis by blast
  qed
  then obtain m where m: "?v / 2 powi ?j = of_int m" ..
  then have "of_int (rhe (?v / 2 powi ?j)) * 2 powi ?j = ?v / 2 powi ?j * 2 powi ?j"
    by (simp only: rhe_of_int)
  also have "\<dots> = ?v" by simp
  finally show ?thesis using v by (simp only: round_mag_pos [of ?v])
qed

lemma round_mag_form:
  assumes "0 \<le> v"
  shows "\<exists>n k. 0 \<le> n \<and> n \<le> 2 ^ 53 \<and> - 1074 \<le> k \<and> round_mag v = of_int n * 2 powi k"
proof (cases "v = 0")
  case True
  have "round_mag v = of_int 0 * 2 powi 0" using True by (simp add: round_mag_zero)
  then show ?thesis by (intro exI [of _ 0] exI [of _ "0::int"]) simp
next
  case False
  with assms have v: "0 < v" by simp
  let ?e = "max (expo v) (- 1022)"
  let ?u = "(2::rat) powi (?e - 52)"
  have u: "ulp_exp v = ?e - 52" by (simp add: ulp_exp_def)
  have "v < 2 powi (expo v + 1)" using expo_bounds(2) [OF v] .
  also have "\<dots> \<le> 2 powi (?e + 1)" by (rule powi2_mono) simp
  finally have "v / ?u \<le> 2 powi (?e + 1) / ?u"
    by (intro divide_right_mono) simp_all
  also have "\<dots> = of_int (2 ^ 53)" by (simp add: power_int_diff flip: power_int_diff)
  finally have hi: "rhe (v / ?u) \<le> 2 ^ 53" by (rule rhe_le_int)
  have "of_int 0 \<le> v / ?u" using v by simp
  then have lo: "0 \<le> rhe (v / ?u)" by (rule rhe_ge_int)
  have "round_mag v = of_int (rhe (v / ?u)) * 2 powi (?e - 52)"
    using v by (simp add: round_mag_pos u)
  moreover have "- 1074 \<le> ?e - 52" by simp
  ultimately show ?thesis using lo hi by blast
qed

lemma round_mag_idem: "0 \<le> v \<Longrightarrow> round_mag (round_mag v) = round_mag v"
  using round_mag_form [of v] round_mag_exact by auto

lemma round_mag_eval:
  assumes "0 < v" "2 powi e \<le> v" "v < 2 powi (e + 1)" "- 1022 \<le> e"
  shows "round_mag v = of_int (rhe (v / 2 powi (e - 52))) * 2 powi (e - 52)"
proof -
  have "expo v = e" using assms(1-3) by (rule expo_unique)
  then have "ulp_exp v = e - 52" using assms(4) by (simp add: ulp_exp_def)
  then show ?thesis using assms(1) by (simp add: round_mag_pos)
qed

lemma overflow_bound_pos [simp]: "0 < overflow_bound" "\<not> overflow_bound \<le> 0"
proof -
  show "0 < overflow_bound" unfolding overflow_bound_def by (rule zero_less_power_int) simp
  then show "\<not> overflow_bound \<le> 0" by (simp only: not_le)
qed

lemma rnd_nonneg_unfold:
  "0 \<le> v \<Longrightarrow> rnd s v =
     (if overflow_bound \<le> round_mag v then PInf
      else if round_mag v = 0 then (if v = 0 \<and> s then NegZero else Fin 0)
      else Fin (round_mag v))"
  by (auto simp add: rnd_def Let_def)

lemma rnd_zero: "rnd s 0 = zero_of s"
  by (simp add: rnd_def round_mag_zero zero_of_def)

lemma rnd_eval:
  assumes "0 < v" "2 powi e \<le> v" "v < 2 powi (e + 1)" "- 1022 \<le> e" "e < 1023"
  shows "rnd s v = Fin (of_int (rhe (v / 2 powi (e - 52))) * 2 powi (e - 52))"
proof -
  have ex: "expo v = e" using assms(1-3) by (rule expo_unique)
  then have m: "e = max (expo v) (- 1022)" using assms(4) by simp
  have "2 powi e \<le> round_mag v"
    using round_mag_binade(2) [OF assms(1) m] assms(4) ex by simp
  then have pos: "0 < round_mag v" using powi2_pos [of e] by linarith
  have "round_mag v \<le> 2 powi (e + 1)" by (rule round_mag_binade(1) [OF assms(1) m])
  also have "\<dots> \<le> 2 powi 1023" using assms(5) by (intro powi2_mono) simp
  also have "\<dots> < (2::rat) powi 1024" by (intro power_int_strict_increasing) simp_all
  finally have "\<not> overflow_bound \<le> round_mag v" by (simp only: overflow_bound_def not_le)
  then show ?thesis
    using pos assms(1) by (simp add: rnd_nonneg_unfold round_mag_eval [OF assms(1-4)])
qed

lemma floor_rat_numeral: "\<lfloor>(numeral a :: rat) / numeral b\<rfloor> = numeral a div numeral b"
  by (metis floor_divide_of_int_eq of_int_numeral)

lemmas rnd_simps = rhe_def Let_def floor_rat_numeral

section \<open>Properties of the operations on non-negative numbers\<close>

lemma nn_iff: "nn x \<longleftrightarrow> x = PInf \<or> x = NegZero \<or> (\<exists>q. x = Fin q \<and> 0 \<le> q)"
  by (cases x) (simp_all add: nn_def)

lemma nn_cases [consumes 1, case_names PInf NegZero Fin]:
  assumes "nn x"
  obtains "x = PInf" | "x = NegZero" | q where "x = Fin q" "0 \<le> q"
  using assms nn_iff by blast

lemma nn_simps [simp]: "nn PInf" "nn NegZero" "nn (Fin q) = (0 \<le> q)" "\<not> nn NaN" "\<not> nn NInf"
  by (simp_all add: nn_def)

lemma rnd_nn: "0 \<le> v \<Longrightarrow> nn (rnd s v)"
  using round_mag_nonneg [of v] by (simp add: rnd_nonneg_unfold)

lemma rnd_mono:
  assumes "0 \<le> v" "v \<le> w"
  shows "num_le (rnd s v) (rnd s' w)"
proof -
  have w: "0 \<le> w" using assms by simp
  have "round_mag v \<le> round_mag w" using assms by (rule round_mag_mono)
  moreover have "0 \<le> round_mag v" using assms(1) by (rule round_mag_nonneg)
  ultimately show ?thesis
    by (auto simp add: rnd_nonneg_unfold [OF assms(1)] rnd_nonneg_unfold [OF w])
qed

lemma rnd_is_double:
  assumes "0 \<le> v"
  shows "is_double (rnd s v)"
proof -
  have "0 \<le> round_mag v" using assms by (rule round_mag_nonneg)
  then show ?thesis
    using round_mag_idem [OF assms]
    by (auto simp add: rnd_nonneg_unfold [OF assms] is_double_def rnd_nonneg_unfold [of "round_mag v"] rnd_zero zero_of_def)
qed

lemma num_le_PInf: "x \<noteq> NaN \<Longrightarrow> num_le x PInf"
  by (cases x) simp_all

lemma num_le_trans: "num_le x y \<Longrightarrow> num_le y z \<Longrightarrow> num_le x z"
  by (cases x; cases y; cases z) simp_all

lemma nn_mono: "nn x \<Longrightarrow> num_le x y \<Longrightarrow> nn y"
  unfolding nn_def by (rule num_le_trans)

text \<open>The operations on non-negative numbers.\<close>

lemma num_add_nn:
  assumes "nn x" "nn y"
  shows "num_add x y = (if x = PInf \<or> y = PInf then PInf
                        else rnd (sign_bit x \<and> sign_bit y) (val x + val y))"
  using assms by (auto simp add: nn_iff num_add_def)

lemma val_nn: "nn x \<Longrightarrow> 0 \<le> val x"
  by (cases x rule: nn_cases) simp_all

lemma nn_num_add: "nn x \<Longrightarrow> nn y \<Longrightarrow> nn (num_add x y)"
  by (simp add: num_add_nn rnd_nn val_nn)

lemma is_double_num_add: "nn x \<Longrightarrow> nn y \<Longrightarrow> is_double (num_add x y)"
  by (simp add: num_add_nn rnd_is_double val_nn) (simp add: is_double_def)

lemma nn_not_NaN: "nn x \<Longrightarrow> x \<noteq> NaN"
  by auto

lemma num_le_nn: 
  assumes "nn x" "nn y"
  shows "num_le x y \<longleftrightarrow> y = PInf \<or> (x \<noteq> PInf \<and> val x \<le> val y)"
  using assms by (auto simp add: nn_iff)

lemma num_add_mono:
  assumes "nn x" "num_le x x'" "nn y" "num_le y y'"
  shows "num_le (num_add x y) (num_add x' y')"
proof -
  have x': "nn x'" and y': "nn y'" using assms nn_mono by blast+
  show ?thesis
  proof (cases "x' = PInf \<or> y' = PInf")
    case True
    then have "num_add x' y' = PInf" using x' y' by (simp add: num_add_nn)
    then show ?thesis using nn_num_add [OF assms(1,3)] by (simp add: num_le_PInf nn_not_NaN)
  next
    case False
    then have "x \<noteq> PInf" "y \<noteq> PInf" "val x \<le> val x'" "val y \<le> val y'"
      using assms x' y' by (auto simp add: num_le_nn)
    then show ?thesis
      using False assms(1,3) x' y'
      by (simp add: num_add_nn rnd_mono val_nn add_mono)
  qed
qed

text \<open>A representable lower bound of the tax stays one when a non-negative amount is added.\<close>

lemma num_add_lower:
  assumes "nn b" "is_double b" "num_le b x" "nn y"
  shows "num_le b (num_add x y)"
proof -
  have x: "nn x" using assms nn_mono by blast
  show ?thesis
  proof (cases "x = PInf \<or> y = PInf")
    case True
    then show ?thesis using x assms by (simp add: num_add_nn num_le_PInf nn_not_NaN)
  next
    case False
    then have b: "b \<noteq> PInf" "val b \<le> val x" using assms x by (auto simp add: num_le_nn)
    have "num_le b (rnd False (val b))"
      using assms(1,2) b(1) by (cases b rule: nn_cases) (simp_all add: is_double_def rnd_zero zero_of_def)
    moreover have "num_le (rnd False (val b)) (rnd (sign_bit x \<and> sign_bit y) (val x + val y))"
      using b(2) val_nn [OF assms(1)] val_nn [OF assms(4)] by (intro rnd_mono) simp_all
    ultimately show ?thesis using False x assms(4) by (simp add: num_add_nn) (rule num_le_trans)
  qed
qed

lemma taxable_eq:
  assumes "nn r" "0 < w"
  shows "Math_max (Fin 0) (Math_min r (Fin w)) = Fin (taxable r w)"
  using assms
  by (auto simp add: nn_iff Math_max_def Math_min_def is_zero_def zero_of_def taxable_def)

lemma taxable_bounds: "nn r \<Longrightarrow> 0 < w \<Longrightarrow> 0 \<le> taxable r w"
  by (auto simp add: taxable_def val_nn)

lemma taxable_mono: "nn r \<Longrightarrow> num_le r r' \<Longrightarrow> taxable r w \<le> taxable r' w"
  using nn_mono [of r r'] by (auto simp add: taxable_def num_le_nn)

lemma num_sub_fin:
  "is_finite r \<Longrightarrow> num_sub r (Fin t) = rnd (sign_bit r \<and> 0 \<le> t) (val r - t)"
  by (cases r) (auto simp add: num_sub_def num_add_def le_less)

lemma remaining_eq:
  assumes "nn r"
  shows "num_sub r (Fin (taxable r w)) =
     (if r = PInf then PInf
      else rnd (sign_bit r \<and> 0 \<le> taxable r w) (max 0 (val r - w)))"
proof (cases "r = PInf")
  case True
  then show ?thesis by (simp add: num_sub_def num_add_def)
next
  case False
  with assms have "is_finite r" by (auto simp add: nn_iff)
  moreover have "val r - taxable r w = max 0 (val r - w)"
    using False by (simp add: taxable_def)
  ultimately show ?thesis using False by (simp add: num_sub_fin)
qed

lemma remaining_nn: "nn r \<Longrightarrow> nn (num_sub r (Fin (taxable r w)))"
  by (simp add: remaining_eq rnd_nn)

lemma remaining_mono:
  assumes "nn r" "num_le r r'"
  shows "num_le (num_sub r (Fin (taxable r w))) (num_sub r' (Fin (taxable r' w)))"
proof -
  have r': "nn r'" using assms by (rule nn_mono)
  show ?thesis
  proof (cases "r' = PInf")
    case True
    then show ?thesis
      using remaining_nn [OF assms(1), of w] by (simp add: remaining_eq num_le_PInf nn_not_NaN)
  next
    case False
    then have "r \<noteq> PInf" "val r \<le> val r'" using assms r' by (auto simp add: num_le_nn)
    then show ?thesis
      using False assms(1) r' by (simp add: remaining_eq) (rule rnd_mono, simp_all)
  qed
qed

lemma num_mul_taxable: "0 \<le> t \<Longrightarrow> 0 \<le> c \<Longrightarrow> num_mul (Fin t) (Fin c) = rnd False (t * c)"
  by (simp add: num_mul_def)

lemma num_mul_nn:
  assumes "nn r" "0 < c"
  shows "num_mul r (Fin c) = (if r = PInf then PInf else rnd (sign_bit r) (val r * c))"
  using assms by (auto simp add: nn_iff num_mul_def is_zero_def inf_of_def)

lemma nn_num_mul: "nn r \<Longrightarrow> 0 < c \<Longrightarrow> nn (num_mul r (Fin c))"
  by (simp add: num_mul_nn rnd_nn val_nn)

lemma num_mul_mono:
  assumes "nn r" "num_le r r'" "0 < c"
  shows "num_le (num_mul r (Fin c)) (num_mul r' (Fin c))"
proof -
  have r': "nn r'" using assms(1,2) by (rule nn_mono)
  show ?thesis
  proof (cases "r' = PInf")
    case True
    then show ?thesis
      using nn_num_mul [OF assms(1,3)] assms(3) by (simp add: num_mul_nn num_le_PInf nn_not_NaN)
  next
    case False
    then have "r \<noteq> PInf" "val r \<le> val r'" using assms r' by (auto simp add: num_le_nn)
    then show ?thesis
      using False assms r' val_nn [OF assms(1)]
      by (simp add: num_mul_nn) (rule rnd_mono, simp_all)
  qed
qed

lemma taxLoop_lower:
  assumes "slabs_ok lu slabs" "nn b" "is_double b" "nn r" "num_le b tx"
  shows "num_le b (taxLoop slabs r tx lu)"
  using assms
proof (induction slabs arbitrary: r tx lu)
  case Nil
  then show ?case by simp
next
  case (Cons slab slabs)
  show ?case
  proof (cases "upto slab")
    case None
    with Cons.prems(1) obtain c where c: "rate slab = Fin c" "0 < c"
      by (auto split: number.splits)
    have "num_le b (num_add tx (num_mul r (Fin c)))"
      using Cons.prems c by (intro num_add_lower nn_num_mul)
    then show ?thesis using None c by simp
  next
    case (Some u)
    with Cons.prems(1) obtain w c where
      w: "num_sub u lu = Fin w" "0 < w" and c: "rate slab = Fin c" "0 \<le> c" and ok: "slabs_ok u slabs"
      by (auto split: number.splits)
    let ?t = "taxable r w"
    have t: "0 \<le> ?t" using Cons.prems(4) w(2) by (rule taxable_bounds)
    let ?tx = "num_add tx (num_mul (Fin ?t) (Fin c))"
    have "nn (num_mul (Fin ?t) (Fin c))" using t c(2) by (simp add: num_mul_taxable rnd_nn)
    then have lower: "num_le b ?tx" using Cons.prems by (intro num_add_lower)
    have "num_le b (taxLoop slabs (num_sub r (Fin ?t)) ?tx u)"
      using ok Cons.prems(2,3) remaining_nn [OF Cons.prems(4)] lower by (rule Cons.IH)
    then show ?thesis
      using Some w c lower Cons.prems(4) by (simp add: taxable_eq Let_def)
  qed
qed

lemma taxLoop_mono:
  assumes "slabs_ok lu slabs" "nn r" "num_le r r'" "nn tx" "num_le tx tx'"
  shows "num_le (taxLoop slabs r tx lu) (taxLoop slabs r' tx' lu)"
  using assms
proof (induction slabs arbitrary: r r' tx tx' lu)
  case Nil
  then show ?case by simp
next
  case (Cons slab slabs)
  have r': "nn r'" using Cons.prems(2,3) by (rule nn_mono)
  have tx': "nn tx'" using Cons.prems(4,5) by (rule nn_mono)
  show ?case
  proof (cases "upto slab")
    case None
    with Cons.prems(1) obtain c where c: "rate slab = Fin c" "0 < c"
      by (auto split: number.splits)
    have "num_le (num_add tx (num_mul r (Fin c))) (num_add tx' (num_mul r' (Fin c)))"
      using Cons.prems c by (intro num_add_mono num_mul_mono nn_num_mul)
    then show ?thesis using None c by simp
  next
    case (Some u)
    with Cons.prems(1) obtain w c where
      w: "num_sub u lu = Fin w" "0 < w" and c: "rate slab = Fin c" "0 \<le> c" and ok: "slabs_ok u slabs"
      by (auto split: number.splits)
    let ?t = "taxable r w" and ?t' = "taxable r' w"
    have t: "0 \<le> ?t" using Cons.prems(2) w(2) by (rule taxable_bounds)
    have t': "0 \<le> ?t'" using r' w(2) by (rule taxable_bounds)
    have tt: "?t \<le> ?t'" using Cons.prems(2,3) by (rule taxable_mono)
    let ?p = "num_mul (Fin ?t) (Fin c)" and ?p' = "num_mul (Fin ?t') (Fin c)"
    have p: "nn ?p" using t c(2) by (simp add: num_mul_taxable rnd_nn)
    have pp: "num_le ?p ?p'"
      using t t' tt c(2) by (simp add: num_mul_taxable) (rule rnd_mono, simp_all add: mult_right_mono)
    let ?tx = "num_add tx ?p" and ?tx' = "num_add tx' ?p'"
    have txs: "num_le ?tx ?tx'" using Cons.prems(4,5) p pp by (rule num_add_mono)
    have ntx: "nn ?tx" using Cons.prems(4) p by (rule nn_num_add)
    let ?rem = "num_sub r (Fin ?t)" and ?rem' = "num_sub r' (Fin ?t')"
    have rem: "nn ?rem" using Cons.prems(2) by (rule remaining_nn)
    have rem': "nn ?rem'" using r' by (rule remaining_nn)
    have rems: "num_le ?rem ?rem'" using Cons.prems(2,3) by (rule remaining_mono)
    have lhs: "taxLoop (slab # slabs) r tx lu =
        (if num_le ?rem (Fin 0) then ?tx else taxLoop slabs ?rem ?tx u)"
      using Some w c Cons.prems(2) by (simp add: taxable_eq Let_def)
    have rhs: "taxLoop (slab # slabs) r' tx' lu =
        (if num_le ?rem' (Fin 0) then ?tx' else taxLoop slabs ?rem' ?tx' u)"
      using Some w c r' by (simp add: taxable_eq Let_def)
    show ?thesis
    proof (cases "num_le ?rem (Fin 0)")
      case True
      show ?thesis
      proof (cases "num_le ?rem' (Fin 0)")
        case True
        with \<open>num_le ?rem (Fin 0)\<close> show ?thesis unfolding lhs rhs using txs by simp
      next
        case False
        have "num_le ?tx (taxLoop slabs ?rem' ?tx' u)"
          using ok ntx is_double_num_add [OF Cons.prems(4) p] rem' txs by (rule taxLoop_lower)
        with True False show ?thesis unfolding lhs rhs by simp
      qed
    next
      case False
      have "\<not> num_le ?rem' (Fin 0)"
      proof
        assume "num_le ?rem' (Fin 0)"
        with rems have "num_le ?rem (Fin 0)" by (rule num_le_trans)
        with False show False ..
      qed
      moreover have "num_le (taxLoop slabs ?rem ?tx u) (taxLoop slabs ?rem' ?tx' u)"
        using ok rem rems ntx txs by (rule Cons.IH)
      ultimately show ?thesis unfolding lhs rhs using False by simp
    qed
  qed
qed

section \<open>Evaluation at concrete numbers\<close>

lemmas rnd_at =
  rnd_eval [where e = "- 5"] rnd_eval [where e = "- 4"] rnd_eval [where e = "- 3"]
  rnd_eval [where e = "- 2"] rnd_eval [where e = 2]
  rnd_eval [where e = 10] rnd_eval [where e = 11] rnd_eval [where e = 12]
  rnd_eval [where e = 13]
  rnd_eval [where e = 14] rnd_eval [where e = 15] rnd_eval [where e = 16]
  rnd_eval [where e = 17] rnd_eval [where e = 18] rnd_eval [where e = 19]
  rnd_eval [where e = 20]

lemma num_add_Fin: "num_add (Fin a) (Fin b) = rnd (a < 0 \<and> b < 0) (a + b)"
  by (simp add: num_add_def)

lemma num_sub_Fin: "num_sub (Fin a) (Fin b) = rnd (a < 0 \<and> 0 \<le> b) (a - b)"
  by (simp add: num_sub_fin)

lemma num_mul_Fin: "num_mul (Fin a) (Fin b) = rnd ((a < 0) \<noteq> (b < 0)) (a * b)"
  by (simp add: num_mul_def)

lemma num_div_Fin: "b \<noteq> 0 \<Longrightarrow> num_div (Fin a) (Fin b) = rnd ((a < 0) \<noteq> (b < 0)) (a / b)"
  by (simp add: num_div_def is_zero_def)

lemma Math_min_Fin: "Math_min (Fin a) (Fin b) = Fin (min a b)"
  by (auto simp add: Math_min_def is_zero_def zero_of_def)

lemma Math_max_Fin: "Math_max (Fin a) (Fin b) = Fin (max a b)"
  by (auto simp add: Math_max_def is_zero_def zero_of_def)

lemmas num_Fin = num_add_Fin num_sub_Fin num_mul_Fin num_div_Fin Math_min_Fin Math_max_Fin rnd_zero
  zero_of_def

lemma lit_5_100: "lit (5 / 100) = Fin (3602879701896397 / 72057594037927936)"
  by (simp add: lit_def rnd_at rnd_simps)

lemma lit_2_10: "lit (2 / 10) = Fin (3602879701896397 / 18014398509481984)"
  by (simp add: lit_def rnd_at rnd_simps)

lemma lit_3_10: "lit (3 / 10) = Fin (5404319552844595 / 18014398509481984)"
  by (simp add: lit_def rnd_at rnd_simps)

lemma lit_12_100: "lit (12 / 100) = Fin (1080863910568919 / 9007199254740992)"
  by (simp add: lit_def rnd_at rnd_simps)

lemmas lits = lit_5_100 [simplified] lit_2_10 [simplified] lit_3_10 [simplified]
  lit_12_100 [simplified]

lemma tax_250000: "calculateAnnualTax (Fin 250000) = Fin 0"
  by (simp add: calculateAnnualTax_def TAX_SLABS_def num_Fin lits rnd_at rnd_simps)

lemmas tax_eval = calculateAnnualTax_def TAX_SLABS_def num_Fin lits rnd_at rnd_simps

lemma tax_500000: "calculateAnnualTax (Fin 500000) = Fin 12500"
  by (simp add: tax_eval)

lemma tax_1000000: "calculateAnnualTax (Fin 1000000) = Fin 112500"
  by (simp add: tax_eval)

lemma tax_1500000: "calculateAnnualTax (Fin 1500000) = Fin 262500"
  by (simp add: tax_eval)

lemma tax_780000: "calculateAnnualTax (Fin 780000) = Fin 68500"
  by (simp add: tax_eval)

lemma slabs_ok_TAX_SLABS: "slabs_ok (Fin 0) TAX_SLABS"
  by (simp add: TAX_SLABS_def num_Fin lits rnd_at rnd_simps)

section \<open>Properties of the attendance loop\<close>

lemma countDays_filter:
  "countDays as f h =
     (f + length (filter (\<lambda>a. num_ge (hoursWorked a) (Fin 8)) as),
      h + length (filter (\<lambda>a. \<not> num_ge (hoursWorked a) (Fin 8) \<and> num_gt (hoursWorked a) (Fin 0)) as))"
  by (induction as arbitrary: f h) simp_all

lemma fullDays_eq:
  "fullDays (calculateMonthlySalary params) =
     length (filter (\<lambda>a. num_ge (hoursWorked a) (Fin 8)) (attendances params))"
  by (simp add: calculateMonthlySalary_def Let_def countDays_filter)

lemma halfDays_eq:
  "halfDays (calculateMonthlySalary params) =
     length (filter (\<lambda>a. \<not> num_ge (hoursWorked a) (Fin 8) \<and> num_gt (hoursWorked a) (Fin 0))
       (attendances params))"
  by (simp add: calculateMonthlySalary_def Let_def countDays_filter)

lemma num_ge_8_gt_0: "num_ge x (Fin 8) \<Longrightarrow> num_gt x (Fin 0)"
  by (cases x) (simp_all add: num_ge_def num_gt_def)

lemma num_lt_not_ge: "num_lt x (Fin 8) \<Longrightarrow> \<not> num_ge x (Fin 8)"
  by (cases x) (simp_all add: num_ge_def)

lemma num_eq_0_absent: "num_eq x (Fin 0) \<Longrightarrow> \<not> num_ge x (Fin 8) \<and> \<not> num_gt x (Fin 0)"
  by (cases x) (simp_all add: num_ge_def num_gt_def num_eq_def)

lemma num_le_0_absent: "num_le x (Fin 0) \<Longrightarrow> \<not> num_ge x (Fin 8) \<and> \<not> num_gt x (Fin 0)"
  by (cases x) (simp_all add: num_ge_def num_gt_def)

lemma lit_7999: "lit (7999 / 1000) = Fin (9006073354834149 / 1125899906842624)"
  by (simp add: lit_def rnd_at rnd_simps)

lemma counted_days_eq:
  "length (filter (\<lambda>a. num_ge (hoursWorked a) (Fin 8)) as) +
   length (filter (\<lambda>a. \<not> num_ge (hoursWorked a) (Fin 8) \<and> num_gt (hoursWorked a) (Fin 0)) as) =
   length (filter (\<lambda>a. num_gt (hoursWorked a) (Fin 0)) as)"
  by (induction as) (auto dest: num_ge_8_gt_0)

section \<open>Representable values, finite quotients and zeros\<close>

lemma is_double_Fin:
  assumes "is_double (Fin q)"
  shows "round_mag \<bar>q\<bar> = \<bar>q\<bar>" and "\<bar>q\<bar> < overflow_bound"
  using assms
  by (auto simp add: is_double_def rnd_def Let_def round_mag_zero split: if_splits)

lemma rnd_is_double_all: "is_double (rnd s v)"
proof -
  let ?r = "round_mag \<bar>v\<bar>"
  have r: "0 \<le> ?r" "round_mag ?r = ?r"
    by (simp_all add: round_mag_nonneg round_mag_idem)
  show ?thesis
  proof (cases "overflow_bound \<le> ?r \<or> ?r = 0")
    case True
    then show ?thesis by (auto simp add: rnd_def Let_def is_double_def round_mag_zero)
  next
    case False
    then have "0 < ?r" "\<not> overflow_bound \<le> ?r" using r(1) by auto
    then show ?thesis using r(2) by (auto simp add: rnd_def Let_def is_double_def)
  qed
qed

lemma is_double_zero_of: "is_double (zero_of s)"
  by (simp add: zero_of_def is_double_def rnd_zero)

lemma is_double_num_add_all: "is_finite (num_add x y) \<Longrightarrow> is_double (num_add x y)"
  by (auto simp add: num_add_def rnd_is_double_all split: if_splits)

lemma is_double_num_div: "is_double (num_div x y)"
  by (simp add: num_div_def rnd_is_double_all is_double_zero_of inf_of_def) (simp add: is_double_def)

lemma rnd_finite: "round_mag \<bar>v\<bar> < overflow_bound \<Longrightarrow> is_finite (rnd s v)"
  by (simp add: rnd_def Let_def)

lemma num_div_finite:
  assumes "is_double x" "is_finite x" "num_ge y (Fin 1)"
  shows "is_finite (num_div x y)"
proof (cases y)
  case (Fin w)
  with assms(3) have w: "1 \<le> w" by (simp add: num_ge_def)
  have bound: "round_mag \<bar>val x\<bar> = \<bar>val x\<bar> \<and> \<bar>val x\<bar> < overflow_bound"
    using assms(1,2) by (cases x) (simp_all add: is_double_Fin round_mag_zero)
  have "\<bar>val x / w\<bar> \<le> \<bar>val x\<bar>"
    using w by (simp add: divide_le_eq mult_le_cancel_left1 abs_ge_zero mult_left_le)
  then have "round_mag \<bar>val x / w\<bar> \<le> round_mag \<bar>val x\<bar>"
    by (intro round_mag_mono) simp_all
  with bound have "round_mag \<bar>val x / w\<bar> < overflow_bound" by simp
  then have "is_finite (rnd (sign_bit x \<noteq> sign_bit y) (val x / w))" by (rule rnd_finite)
  then show ?thesis using Fin w assms(2) by (auto simp add: num_div_def is_zero_def)
next
  case PInf
  then show ?thesis using assms(2) by (cases x) (simp_all add: num_div_def zero_of_def)
qed (use assms(3) in \<open>simp_all add: num_ge_def\<close>)

lemma num_mul_zero: "is_finite x \<Longrightarrow> is_zero (num_mul (Fin 0) x)"
  by (cases x) (simp_all add: num_mul_def rnd_zero zero_of_def is_zero_def)

lemma num_add_zero: "is_zero x \<Longrightarrow> is_zero y \<Longrightarrow> is_zero (num_add x y)"
  by (cases x; cases y) (simp_all add: num_add_def rnd_zero zero_of_def is_zero_def)

lemma is_zero_num_eq: "is_zero x \<Longrightarrow> num_eq x (Fin 0)"
  by (cases x) (simp_all add: is_zero_def num_eq_def)

lemma rnd_sign: "v \<noteq> 0 \<Longrightarrow> rnd s v = rnd s' v"
  by (simp add: rnd_def)

lemma num_sub_zero:
  assumes "is_zero x" "is_zero x'"
  shows "same_num (num_sub x y) (num_sub x' y)"
proof (cases y)
  case (Fin t)
  show ?thesis
  proof (cases "t = 0")
    case True
    then show ?thesis
      using assms Fin
      by (cases x; cases x') (simp_all add: is_zero_def num_sub_fin rnd_zero zero_of_def same_num_def)
  next
    case False
    then have "rnd (sign_bit x \<and> 0 \<le> t) (val x - t) = rnd (sign_bit x' \<and> 0 \<le> t) (val x' - t)"
      using assms by (simp add: is_zero_def rnd_sign [of "- t"])
    then show ?thesis using assms Fin by (simp add: is_zero_def num_sub_fin same_num_def)
  qed
qed (use assms in \<open>cases x; cases x'; simp add: is_zero_def num_sub_def num_add_def rnd_zero zero_of_def same_num_def\<close>)+

lemma same_num_sub: "same_num x x' \<Longrightarrow> same_num (num_sub x y) (num_sub x' y)"
  using num_sub_zero [of x x' y] by (auto simp add: same_num_def)

section \<open>Properties of the tax function\<close>

lemma tax_300000: "calculateAnnualTax (Fin 300000) = Fin 2500"
  by (simp add: tax_eval)

lemma calculateAnnualTax_mono:
  assumes "num_le (Fin 0) x" "num_le x y"
  shows "num_le (calculateAnnualTax x) (calculateAnnualTax y)"
  unfolding calculateAnnualTax_def
  using slabs_ok_TAX_SLABS assms by (intro taxLoop_mono) (simp_all add: nn_def)

lemma full_brackets:
  "full_bracket_tax (take 1 TAX_SLABS) (Fin 0) (Fin 0) = Fin 0"
  "full_bracket_tax (take 2 TAX_SLABS) (Fin 0) (Fin 0) = Fin 12500"
  "full_bracket_tax (take 3 TAX_SLABS) (Fin 0) (Fin 0) = Fin 112500"
  by (simp_all add: TAX_SLABS_def num_Fin lits rnd_at rnd_simps)

lemma bounded_slabs: 
  "map upto (take 3 TAX_SLABS) = [Some (Fin 250000), Some (Fin 500000), Some (Fin 1000000)]"
  by (simp add: TAX_SLABS_def)

section \<open>Properties of the monthly salary\<close>

lemma breakdown_fields:
  "grossMonthly (calculateMonthlySalary params) =
     num_add (num_add (basic params) (hra params)) (allowances params)"
  "pf (calculateMonthlySalary params) = num_mul (basic params) (lit (12 / 100))"
  "dailyWage (calculateMonthlySalary params) =
     num_div (grossMonthly (calculateMonthlySalary params)) (workingDaysInMonth params)"
  "totalSalary (calculateMonthlySalary params) =
     num_add
       (num_mul (count (fullDays (calculateMonthlySalary params)))
          (dailyWage (calculateMonthlySalary params)))
       (num_mul (count (halfDays (calculateMonthlySalary params)))
          (num_div (dailyWage (calculateMonthlySalary params)) (Fin 2)))"
  "tax (calculateMonthlySalary params) =
     num_div
       (calculateAnnualTax (num_mul (grossMonthly (calculateMonthlySalary params)) (Fin 12)))
       (Fin 12)"
  "netSalary (calculateMonthlySalary params) =
     num_sub
       (num_sub
          (num_sub (totalSalary (calculateMonthlySalary params))
             (tax (calculateMonthlySalary params)))
          (pf (calculateMonthlySalary params)))
       (SalaryBreakdown.otherDeductions (calculateMonthlySalary params))"
  "SalaryBreakdown.otherDeductions (calculateMonthlySalary params) =
     (case SalaryCalculationParams.otherDeductions params of None \<Rightarrow> Fin 0 | Some d \<Rightarrow> d)"
  by (simp_all add: calculateMonthlySalary_def Let_def split_def)

lemma empty_attendance_total:
  assumes "num_ge (workingDaysInMonth params) (Fin 1)" "attendances params = []"
    "is_finite (grossMonthly (calculateMonthlySalary params))"
  shows "is_zero (totalSalary (calculateMonthlySalary params))"
proof -
  let ?g = "num_add (num_add (basic params) (hra params)) (allowances params)"
  let ?dw = "num_div ?g (workingDaysInMonth params)"
  have g: "is_finite ?g" using assms(3) by (simp add: calculateMonthlySalary_def Let_def split_def)
  then have "is_double ?g" by (rule is_double_num_add_all)
  then have dw: "is_finite ?dw" using g assms(1) by (rule num_div_finite)
  have "is_finite (num_div ?dw (Fin 2))"
    using is_double_num_div dw by (rule num_div_finite) (simp add: num_ge_def)
  then have "is_zero (num_add (num_mul (Fin 0) ?dw) (num_mul (Fin 0) (num_div ?dw (Fin 2))))"
    using dw by (intro num_add_zero num_mul_zero)
  then show ?thesis
    using assms(2) by (simp add: calculateMonthlySalary_def Let_def count_def)
qed

lemma half_day_pred:
  "(\<not> num_ge x (Fin 8) \<and> num_gt x (Fin 0)) = (num_gt x (Fin 0) \<and> num_lt x (Fin 8))"
  by (cases x) (auto simp add: num_ge_def num_gt_def)

lemma scenario_fields:
  "basic (scenario\<lparr>attendances := as\<rparr>) = Fin 50000"
  "hra (scenario\<lparr>attendances := as\<rparr>) = Fin 10000"
  "allowances (scenario\<lparr>attendances := as\<rparr>) = Fin 5000"
  "workingDaysInMonth (scenario\<lparr>attendances := as\<rparr>) = Fin 22"
  "attendances (scenario\<lparr>attendances := as\<rparr>) = as"
  "SalaryCalculationParams.otherDeductions (scenario\<lparr>attendances := as\<rparr>) = Some (Fin 1000)"
  by (simp_all add: scenario_def)

lemma scenario_gross:
  "grossMonthly (calculateMonthlySalary (scenario\<lparr>attendances := as\<rparr>)) = Fin 65000"
  by (simp add: calculateMonthlySalary_def Let_def split_def scenario_fields num_Fin rnd_at rnd_simps)

lemma scenario_pf:
  "pf (calculateMonthlySalary (scenario\<lparr>attendances := as\<rparr>)) = Fin 6000"
  by (simp add: calculateMonthlySalary_def Let_def split_def scenario_fields num_Fin lits
      rnd_at rnd_simps)

lemma scenario_wage: "num_div (Fin 65000) (Fin 22) = Fin (6497114164130909 / 2199023255552)"
  by (simp add: num_Fin rnd_at rnd_simps)

lemma scenario_dailyWage:
  "dailyWage (calculateMonthlySalary (scenario\<lparr>attendances := as\<rparr>)) =
     Fin (6497114164130909 / 2199023255552)"
  using scenario_gross [of as] scenario_wage
  by (simp add: breakdown_fields scenario_fields)

lemma scenario_tax_value: "num_div (Fin 68500) (Fin 12) = Fin (6276378875221333 / 1099511627776)"
  by (simp add: num_Fin rnd_at rnd_simps)

lemma scenario_income: "num_mul (Fin 65000) (Fin 12) = Fin 780000"
  by (simp add: num_Fin rnd_at rnd_simps)

lemma scenario_tax:
  "tax (calculateMonthlySalary (scenario\<lparr>attendances := as\<rparr>)) =
     Fin (6276378875221333 / 1099511627776)"
  using scenario_gross [of as]
  by (simp add: breakdown_fields scenario_income tax_780000 scenario_tax_value)

lemma scenario_total_value:
  "num_add (num_mul (Fin 20) (Fin (6497114164130909 / 2199023255552)))
     (num_mul (Fin 2) (num_div (Fin (6497114164130909 / 2199023255552)) (Fin 2))) =
   Fin (4263731170210909 / 68719476736)"
  by (simp add: num_Fin rnd_at rnd_simps)

lemma scenario_net_value:
  "num_sub
     (num_sub
        (num_sub (Fin (4263731170210909 / 68719476736)) (Fin (6276378875221333 / 1099511627776)))
        (Fin 6000))
     (Fin 1000) =
   Fin (6780842306715151 / 137438953472)"
  by (simp add: num_Fin rnd_at rnd_simps)

lemma scenario_breakdown:
  assumes "length (filter (\<lambda>a. num_ge (hoursWorked a) (Fin 8)) as) = 20"
    and "length (filter (\<lambda>a. num_gt (hoursWorked a) (Fin 0) \<and> num_lt (hoursWorked a) (Fin 8)) as) = 2"
  shows "fullDays (calculateMonthlySalary (scenario\<lparr>attendances := as\<rparr>)) = 20"
    and "halfDays (calculateMonthlySalary (scenario\<lparr>attendances := as\<rparr>)) = 2"
    and "totalSalary (calculateMonthlySalary (scenario\<lparr>attendances := as\<rparr>)) =
      Fin (4263731170210909 / 68719476736)"
    and "netSalary (calculateMonthlySalary (scenario\<lparr>attendances := as\<rparr>)) =
      Fin (6780842306715151 / 137438953472)"
proof -
  let ?b = "calculateMonthlySalary (scenario\<lparr>attendances := as\<rparr>)"
  show f: "fullDays ?b = 20" using assms(1) by (simp add: fullDays_eq scenario_fields)
  show h: "halfDays ?b = 2" using assms(2) by (simp add: halfDays_eq scenario_fields half_day_pred)
  show t: "totalSalary ?b = Fin (4263731170210909 / 68719476736)"
    using scenario_total_value
    by (simp add: breakdown_fields(4) f h scenario_dailyWage count_def)
  have "SalaryBreakdown.otherDeductions ?b = Fin 1000"
    by (simp add: breakdown_fields(7) scenario_fields)
  then show "netSalary ?b = Fin (6780842306715151 / 137438953472)"
    using scenario_net_value
    by (simp add: breakdown_fields(6) t scenario_tax scenario_pf)
qed

lemma scenario_attendance:
  "length (filter (\<lambda>a. num_ge (hoursWorked a) (Fin 8)) (attendances scenario)) = 20"
  "length (filter (\<lambda>a. num_gt (hoursWorked a) (Fin 0) \<and> num_lt (hoursWorked a) (Fin 8))
     (attendances scenario)) = 2"
  by (simp_all add: scenario_def num_ge_def num_gt_def)

lemma scenario_self: "scenario\<lparr>attendances := attendances scenario\<rparr> = scenario"
  by simp

section \<open>The overflowing input\<close>

lemma huge_sum: "huge + huge = overflow_bound"
proof -
  have e: "(1024::int) = 1023 + 1" by simp
  have "(2::rat) powi (1023 + 1) = 2 powi 1023 * 2" by (rule power_int_add_1) simp
  then have "overflow_bound = huge * 2" by (simp only: overflow_bound_def huge_def e)
  then show ?thesis by simp
qed

lemma round_mag_pow2: "- 1074 \<le> k \<Longrightarrow> round_mag (2 powi k) = 2 powi k"
  using round_mag_exact [of 1 k] by simp

lemma round_mag_overflow_bound: "round_mag overflow_bound = overflow_bound"
  unfolding overflow_bound_def by (rule round_mag_pow2) simp

lemma huge_pos: "0 < huge"
  unfolding huge_def by (rule zero_less_power_int) simp

lemma round_mag_huge: "round_mag huge = huge"
  unfolding huge_def by (rule round_mag_pow2) simp

lemma huge_is_double: "is_double (Fin huge)"
proof -
  have "huge < overflow_bound" using huge_sum huge_pos by linarith
  then show ?thesis
    using huge_pos round_mag_huge by (simp add: is_double_def rnd_nonneg_unfold)
qed

lemma rnd_overflow_bound: "rnd s overflow_bound = PInf"
proof -
  have "0 \<le> overflow_bound" using overflow_bound_pos(1) by (rule less_imp_le)
  then show ?thesis by (simp add: rnd_nonneg_unfold round_mag_overflow_bound)
qed

lemma overflow_gross: "num_add (Fin huge) (Fin huge) = PInf"
  by (simp add: num_add_Fin huge_sum rnd_overflow_bound)

lemma overflow_total: "totalSalary (calculateMonthlySalary overflow_params) = NaN"
proof -
  have g: "num_add (num_add (Fin huge) (Fin huge)) (Fin 0) = PInf"
    by (simp only: overflow_gross) (simp add: num_add_def)
  have d: "num_div PInf (Fin 22) = PInf" "num_div PInf (Fin 2) = PInf"
    by (simp_all add: num_div_def inf_of_def)
  have m: "num_mul (Fin 0) PInf = NaN" by (simp add: num_mul_def is_zero_def)
  have a: "num_add NaN NaN = NaN" by (simp add: num_add_def)
  have p: "basic overflow_params = Fin huge" "hra overflow_params = Fin huge"
    "allowances overflow_params = Fin 0" "workingDaysInMonth overflow_params = Fin 22"
    "attendances overflow_params = []"
    by (simp_all add: overflow_params_def)
  have c: "fullDays (calculateMonthlySalary overflow_params) = 0"
    "halfDays (calculateMonthlySalary overflow_params) = 0"
    by (simp_all add: fullDays_eq halfDays_eq p)
  have "grossMonthly (calculateMonthlySalary overflow_params) = PInf"
    by (simp only: breakdown_fields(1) p g)
  then have "dailyWage (calculateMonthlySalary overflow_params) = PInf"
    by (simp only: breakdown_fields(3) p d)
  then show ?thesis
    by (simp only: breakdown_fields(4) c count_def of_nat_0 d m a)
qed

section \<open>The claims\<close>

text \<open>
  Claim C1. With the default slab table, the annual tax at the four incomes of the
  specification is exact: the tax of 250000 is 0, of 500000 is 12500, of 1000000 is
  112500 and of 1500000 is 262500. The rounding of each product and sum of the loop
  is evaluated.
\<close>

theorem C1_boundary_values:
  "calculateAnnualTax (Fin 250000) = Fin 0 \<and>
   calculateAnnualTax (Fin 500000) = Fin 12500 \<and>
   calculateAnnualTax (Fin 1000000) = Fin 112500 \<and>
   calculateAnnualTax (Fin 1500000) = Fin 262500"
  using tax_250000 tax_500000 tax_1000000 tax_1500000 by simp

text \<open>
  Claim C2. The fields of the breakdown are related as the formulas of the calculator
  say: the gross is basic + hra + allowances, the provident fund is basic * 0.12, the
  daily wage is gross / working days, the total salary is
  fullDays * dailyWage + halfDays * (dailyWage / 2), the tax is the annual tax of
  gross * 12 divided by 12, and the net salary is total - tax - pf - otherDeductions,
  where otherDeductions is 0 when the caller omits it. Each operation is the rounded
  one of the language. The equations hold for every input, so also for every input with
  workingDaysInMonth >= 1.
\<close>

theorem C2_breakdown_fields:
  "grossMonthly (calculateMonthlySalary params) =
     num_add (num_add (basic params) (hra params)) (allowances params) \<and>
   pf (calculateMonthlySalary params) = num_mul (basic params) (lit (12 / 100)) \<and>
   dailyWage (calculateMonthlySalary params) =
     num_div (grossMonthly (calculateMonthlySalary params)) (workingDaysInMonth params) \<and>
   totalSalary (calculateMonthlySalary params) =
     num_add
       (num_mul (count (fullDays (calculateMonthlySalary params)))
          (dailyWage (calculateMonthlySalary params)))
       (num_mul (count (halfDays (calculateMonthlySalary params)))
          (num_div (dailyWage (calculateMonthlySalary params)) (Fin 2))) \<and>
   tax (calculateMonthlySalary params) =
     num_div
       (calculateAnnualTax (num_mul (grossMonthly (calculateMonthlySalary params)) (Fin 12)))
       (Fin 12) \<and>
   netSalary (calculateMonthlySalary params) =
     num_sub
       (num_sub
          (num_sub (totalSalary (calculateMonthlySalary params))
             (tax (calculateMonthlySalary params)))
          (pf (calculateMonthlySalary params)))
       (SalaryBreakdown.otherDeductions (calculateMonthlySalary params)) \<and>
   SalaryBreakdown.otherDeductions (calculateMonthlySalary params) =
     (case SalaryCalculationParams.otherDeductions params of None \<Rightarrow> Fin 0 | Some d \<Rightarrow> d)"
  by (simp add: calculateMonthlySalary_def Let_def split_def)

text \<open>
  Claim C3. Whatever the other records are, one more record with hoursWorked >= 8 adds
  exactly one full day and no half day, one with 0 < hoursWorked < 8 adds exactly one
  half day and no full day, and one with hoursWorked == 0 adds nothing. In particular a
  record of 8 hours is a full day, one of 7.999 hours is a half day and one of 0 hours
  is absent.
\<close>

theorem C3_classification:
  "(num_ge (hoursWorked a) (Fin 8) \<longrightarrow>
      fullDays (calculateMonthlySalary (params\<lparr>attendances := xs @ a # ys\<rparr>)) =
        fullDays (calculateMonthlySalary (params\<lparr>attendances := xs @ ys\<rparr>)) + 1 \<and>
      halfDays (calculateMonthlySalary (params\<lparr>attendances := xs @ a # ys\<rparr>)) =
        halfDays (calculateMonthlySalary (params\<lparr>attendances := xs @ ys\<rparr>))) \<and>
   (num_gt (hoursWorked a) (Fin 0) \<and> num_lt (hoursWorked a) (Fin 8) \<longrightarrow>
      fullDays (calculateMonthlySalary (params\<lparr>attendances := xs @ a # ys\<rparr>)) =
        fullDays (calculateMonthlySalary (params\<lparr>attendances := xs @ ys\<rparr>)) \<and>
      halfDays (calculateMonthlySalary (params\<lparr>attendances := xs @ a # ys\<rparr>)) =
        halfDays (calculateMonthlySalary (params\<lparr>attendances := xs @ ys\<rparr>)) + 1) \<and>
   (num_eq (hoursWorked a) (Fin 0) \<longrightarrow>
      fullDays (calculateMonthlySalary (params\<lparr>attendances := xs @ a # ys\<rparr>)) =
        fullDays (calculateMonthlySalary (params\<lparr>attendances := xs @ ys\<rparr>)) \<and>
      halfDays (calculateMonthlySalary (params\<lparr>attendances := xs @ a # ys\<rparr>)) =
        halfDays (calculateMonthlySalary (params\<lparr>attendances := xs @ ys\<rparr>))) \<and>
   fullDays (calculateMonthlySalary
      (params\<lparr>attendances := [\<lparr>date = d, hoursWorked = Fin 8\<rparr>]\<rparr>)) = 1 \<and>
   halfDays (calculateMonthlySalary
      (params\<lparr>attendances := [\<lparr>date = d, hoursWorked = Fin 8\<rparr>]\<rparr>)) = 0 \<and>
   fullDays (calculateMonthlySalary
      (params\<lparr>attendances := [\<lparr>date = d, hoursWorked = lit (7999 / 1000)\<rparr>]\<rparr>)) = 0 \<and>
   halfDays (calculateMonthlySalary
      (params\<lparr>attendances := [\<lparr>date = d, hoursWorked = lit (7999 / 1000)\<rparr>]\<rparr>)) = 1 \<and>
   fullDays (calculateMonthlySalary
      (params\<lparr>attendances := [\<lparr>date = d, hoursWorked = Fin 0\<rparr>]\<rparr>)) = 0 \<and>
   halfDays (calculateMonthlySalary
      (params\<lparr>attendances := [\<lparr>date = d, hoursWorked = Fin 0\<rparr>]\<rparr>)) = 0"
  using num_ge_8_gt_0 [of "hoursWorked a"] num_lt_not_ge [of "hoursWorked a"]
    num_eq_0_absent [of "hoursWorked a"]
  by (auto simp add: fullDays_eq halfDays_eq lit_7999 [simplified] num_ge_def num_gt_def)

theorem C3_classification_witness:
  "num_ge (hoursWorked \<lparr>date = ''2024-01-03'', hoursWorked = Fin 9\<rparr>) (Fin 8) \<and>
   fullDays (calculateMonthlySalary
     (scenario\<lparr>attendances := [] @ \<lparr>date = ''2024-01-03'', hoursWorked = Fin 9\<rparr> # []\<rparr>)) =
     fullDays (calculateMonthlySalary (scenario\<lparr>attendances := [] @ []\<rparr>)) + 1 \<and>
   num_gt (hoursWorked \<lparr>date = ''2024-01-03'', hoursWorked = Fin 4\<rparr>) (Fin 0) \<and>
   num_lt (hoursWorked \<lparr>date = ''2024-01-03'', hoursWorked = Fin 4\<rparr>) (Fin 8) \<and>
   halfDays (calculateMonthlySalary
     (scenario\<lparr>attendances := [] @ \<lparr>date = ''2024-01-03'', hoursWorked = Fin 4\<rparr> # []\<rparr>)) =
     halfDays (calculateMonthlySalary (scenario\<lparr>attendances := [] @ []\<rparr>)) + 1 \<and>
   num_eq (hoursWorked \<lparr>date = ''2024-01-03'', hoursWorked = Fin 0\<rparr>) (Fin 0) \<and>
   halfDays (calculateMonthlySalary
     (scenario\<lparr>attendances := [] @ \<lparr>date = ''2024-01-03'', hoursWorked = Fin 0\<rparr> # []\<rparr>)) =
     halfDays (calculateMonthlySalary (scenario\<lparr>attendances := [] @ []\<rparr>))"
  using
    C3_classification [where a = "\<lparr>date = ''2024-01-03'', hoursWorked = Fin 9\<rparr>"
      and params = scenario and xs = "[]" and ys = "[]"]
    C3_classification [where a = "\<lparr>date = ''2024-01-03'', hoursWorked = Fin 4\<rparr>"
      and params = scenario and xs = "[]" and ys = "[]"]
    C3_classification [where a = "\<lparr>date = ''2024-01-03'', hoursWorked = Fin 0\<rparr>"
      and params = scenario and xs = "[]" and ys = "[]"]
  by (simp add: num_ge_def num_gt_def num_eq_def)

text \<open>
  Claim C4. The annual tax is non-decreasing on non-negative incomes: if 0 <= x <= y then
  the tax of x is at most the tax of y (for all numbers, the infinity included). At each
  bounded slab boundary (250000, 500000 and 1000000) the tax is the sum over the lower
  brackets of width times rate.
\<close>

theorem C4_monotone_and_boundaries:
  "(num_le (Fin 0) x \<and> num_le x y \<longrightarrow>
      num_le (calculateAnnualTax x) (calculateAnnualTax y)) \<and>
   map upto (take 3 TAX_SLABS) = [Some (Fin 250000), Some (Fin 500000), Some (Fin 1000000)] \<and>
   calculateAnnualTax (Fin 250000) = full_bracket_tax (take 1 TAX_SLABS) (Fin 0) (Fin 0) \<and>
   calculateAnnualTax (Fin 500000) = full_bracket_tax (take 2 TAX_SLABS) (Fin 0) (Fin 0) \<and>
   calculateAnnualTax (Fin 1000000) = full_bracket_tax (take 3 TAX_SLABS) (Fin 0) (Fin 0)"
  using calculateAnnualTax_mono [of x y] full_brackets bounded_slabs
    tax_250000 tax_500000 tax_1000000
  by simp

theorem C4_monotone_and_boundaries_witness:
  "num_le (Fin 0) (Fin 300000) \<and> num_le (Fin 300000) (Fin 780000) \<and>
   num_le (calculateAnnualTax (Fin 300000)) (calculateAnnualTax (Fin 780000)) \<and>
   calculateAnnualTax (Fin 300000) = Fin 2500 \<and> calculateAnnualTax (Fin 780000) = Fin 68500"
  using C4_monotone_and_boundaries [of "Fin 300000" "Fin 780000"]
  by (simp add: tax_300000 tax_780000)

text \<open>
  Claim C5. The tax and the provident fund do not depend on the attendance or on the
  other deductions: two calls that agree on basic, hra, allowances and working days
  return the same tax, which is the annual tax of gross * 12 divided by 12, and the same
  provident fund.
\<close>

theorem C5_tax_pf_independent:
  "basic p = basic p' \<and> hra p = hra p' \<and> allowances p = allowances p' \<and>
   workingDaysInMonth p = workingDaysInMonth p' \<Longrightarrow>
   tax (calculateMonthlySalary p) = tax (calculateMonthlySalary p') \<and>
   pf (calculateMonthlySalary p) = pf (calculateMonthlySalary p') \<and>
   tax (calculateMonthlySalary p) =
     num_div
       (calculateAnnualTax (num_mul (grossMonthly (calculateMonthlySalary p)) (Fin 12)))
       (Fin 12)"
  by (simp add: calculateMonthlySalary_def Let_def split_def)

theorem C5_tax_pf_independent_witness:
  "basic scenario = basic (scenario\<lparr>attendances := [], SalaryCalculationParams.otherDeductions := None\<rparr>) \<and>
   hra scenario = hra (scenario\<lparr>attendances := [], SalaryCalculationParams.otherDeductions := None\<rparr>) \<and>
   allowances scenario = allowances (scenario\<lparr>attendances := [], SalaryCalculationParams.otherDeductions := None\<rparr>) \<and>
   workingDaysInMonth scenario =
     workingDaysInMonth (scenario\<lparr>attendances := [], SalaryCalculationParams.otherDeductions := None\<rparr>) \<and>
   attendances scenario \<noteq> attendances (scenario\<lparr>attendances := [], SalaryCalculationParams.otherDeductions := None\<rparr>) \<and>
   SalaryCalculationParams.otherDeductions scenario \<noteq>
     SalaryCalculationParams.otherDeductions
       (scenario\<lparr>attendances := [], SalaryCalculationParams.otherDeductions := None\<rparr>) \<and>
   tax (calculateMonthlySalary scenario) =
     tax (calculateMonthlySalary (scenario\<lparr>attendances := [], SalaryCalculationParams.otherDeductions := None\<rparr>)) \<and>
   pf (calculateMonthlySalary scenario) =
     pf (calculateMonthlySalary (scenario\<lparr>attendances := [], SalaryCalculationParams.otherDeductions := None\<rparr>))"
  using C5_tax_pf_independent [of scenario "scenario\<lparr>attendances := [], SalaryCalculationParams.otherDeductions := None\<rparr>"]
  by (simp add: scenario_def)

text \<open>
  Claim C6, as amended. In the end-to-end scenario (basic 50000, hra 10000, allowances
  5000, 22 working days, other deductions 1000) with any attendance list that has 20
  records of at least 8 hours and 2 records of more than 0 and less than 8 hours, the
  gross is 65000, the provident fund 6000, the daily wage 65000 / 22 (about 2954.545),
  the tax 68500 / 12 (about 5708.33), and the total salary is about 62045.455 and the
  net salary about 49337.12.
\<close>

theorem C6_scenario:
  assumes "length (filter (\<lambda>a. num_ge (hoursWorked a) (Fin 8)) as) = 20"
    and "length (filter (\<lambda>a. num_gt (hoursWorked a) (Fin 0) \<and> num_lt (hoursWorked a) (Fin 8)) as) = 2"
  shows
    "grossMonthly (calculateMonthlySalary (scenario\<lparr>attendances := as\<rparr>)) = Fin 65000 \<and>
     pf (calculateMonthlySalary (scenario\<lparr>attendances := as\<rparr>)) = Fin 6000 \<and>
     dailyWage (calculateMonthlySalary (scenario\<lparr>attendances := as\<rparr>)) =
       num_div (Fin 65000) (Fin 22) \<and>
     \<bar>val (dailyWage (calculateMonthlySalary (scenario\<lparr>attendances := as\<rparr>))) - 2954545 / 1000\<bar>
       < 1 / 1000 \<and>
     \<bar>val (totalSalary (calculateMonthlySalary (scenario\<lparr>attendances := as\<rparr>))) - 62045455 / 1000\<bar>
       < 1 / 1000 \<and>
     tax (calculateMonthlySalary (scenario\<lparr>attendances := as\<rparr>)) =
       num_div (Fin 68500) (Fin 12) \<and>
     \<bar>val (tax (calculateMonthlySalary (scenario\<lparr>attendances := as\<rparr>))) - 570833 / 100\<bar>
       < 1 / 100 \<and>
     \<bar>val (netSalary (calculateMonthlySalary (scenario\<lparr>attendances := as\<rparr>))) - 4933712 / 100\<bar>
       < 1 / 100"
  by (simp add: scenario_gross scenario_pf scenario_dailyWage scenario_wage scenario_tax
      scenario_tax_value scenario_breakdown [OF assms])

theorem C6_scenario_witness:
  "length (filter (\<lambda>a. num_ge (hoursWorked a) (Fin 8)) (attendances scenario)) = 20 \<and>
   length (filter (\<lambda>a. num_gt (hoursWorked a) (Fin 0) \<and> num_lt (hoursWorked a) (Fin 8))
     (attendances scenario)) = 2 \<and>
   grossMonthly (calculateMonthlySalary scenario) = Fin 65000 \<and>
   pf (calculateMonthlySalary scenario) = Fin 6000 \<and>
   \<bar>val (totalSalary (calculateMonthlySalary scenario)) - 62045455 / 1000\<bar> < 1 / 1000 \<and>
   \<bar>val (netSalary (calculateMonthlySalary scenario)) - 4933712 / 100\<bar> < 1 / 100"
  using C6_scenario [OF scenario_attendance] scenario_attendance
  by (simp only: scenario_self)

text \<open>The total salary 61954.545 and the net salary 49246.21 of the specification are
  not what the calculator returns: on twenty records of 8 hours and two of 4 hours both
  are off by more than 90 (the total is 20 * 2954.545 + 2 * 1477.273, about 62045.455).\<close>

theorem C6_scenario_counterexample:
  "length (filter (\<lambda>a. num_ge (hoursWorked a) (Fin 8)) (attendances scenario)) = 20 \<and>
   length (filter (\<lambda>a. num_gt (hoursWorked a) (Fin 0) \<and> num_lt (hoursWorked a) (Fin 8))
     (attendances scenario)) = 2 \<and>
   length (attendances scenario) = 22 \<and>
   totalSalary (calculateMonthlySalary scenario) = Fin (4263731170210909 / 68719476736) \<and>
   90 < \<bar>val (totalSalary (calculateMonthlySalary scenario)) - 61954545 / 1000\<bar> \<and>
   netSalary (calculateMonthlySalary scenario) = Fin (6780842306715151 / 137438953472) \<and>
   90 < \<bar>val (netSalary (calculateMonthlySalary scenario)) - 4924621 / 100\<bar>"
proof -
  have "totalSalary (calculateMonthlySalary (scenario\<lparr>attendances := attendances scenario\<rparr>)) =
      Fin (4263731170210909 / 68719476736)"
    and "netSalary (calculateMonthlySalary (scenario\<lparr>attendances := attendances scenario\<rparr>)) =
      Fin (6780842306715151 / 137438953472)"
    using scenario_attendance by (rule scenario_breakdown)+
  moreover have "length (attendances scenario) = 22" by (simp add: scenario_def)
  ultimately show ?thesis using scenario_attendance by (simp only: scenario_self) simp
qed

text \<open>
  Claim C7, as amended. The calculator has no failing branch (it is a total function).
  For every input with workingDaysInMonth >= 1, an empty attendance list and a finite
  gross salary (basic + hra + allowances is neither NaN nor infinite, and does not
  overflow), it returns fullDays = 0, halfDays = 0, a total salary that is a zero, and
  netSalary = totalSalary - tax - pf - otherDeductions, which is the same number as
  0 - tax - pf - otherDeductions.
\<close>

theorem C7_empty_attendance:
  assumes "num_ge (workingDaysInMonth params) (Fin 1)" "attendances params = []"
    "is_finite (grossMonthly (calculateMonthlySalary params))"
  shows "fullDays (calculateMonthlySalary params) = 0 \<and>
    halfDays (calculateMonthlySalary params) = 0 \<and>
    num_eq (totalSalary (calculateMonthlySalary params)) (Fin 0) \<and>
    netSalary (calculateMonthlySalary params) =
      num_sub
        (num_sub
           (num_sub (totalSalary (calculateMonthlySalary params))
              (tax (calculateMonthlySalary params)))
           (pf (calculateMonthlySalary params)))
        (SalaryBreakdown.otherDeductions (calculateMonthlySalary params)) \<and>
    same_num (netSalary (calculateMonthlySalary params))
      (num_sub
        (num_sub
           (num_sub (Fin 0) (tax (calculateMonthlySalary params)))
           (pf (calculateMonthlySalary params)))
        (SalaryBreakdown.otherDeductions (calculateMonthlySalary params)))"
proof -
  let ?b = "calculateMonthlySalary params"
  have z: "is_zero (totalSalary ?b)" using assms by (rule empty_attendance_total)
  have net: "netSalary ?b =
      num_sub (num_sub (num_sub (totalSalary ?b) (tax ?b)) (pf ?b)) (SalaryBreakdown.otherDeductions ?b)"
    by (simp add: calculateMonthlySalary_def Let_def split_def)
  have "same_num (totalSalary ?b) (Fin 0)" using z by (simp add: same_num_def is_zero_def)
  then have "same_num
      (num_sub (num_sub (num_sub (totalSalary ?b) (tax ?b)) (pf ?b)) (SalaryBreakdown.otherDeductions ?b))
      (num_sub (num_sub (num_sub (Fin 0) (tax ?b)) (pf ?b)) (SalaryBreakdown.otherDeductions ?b))"
    by (intro same_num_sub)
  then show ?thesis
    using assms(2) z net by (simp add: fullDays_eq halfDays_eq is_zero_num_eq)
qed

theorem C7_empty_attendance_witness:
  "num_ge (workingDaysInMonth (scenario\<lparr>attendances := []\<rparr>)) (Fin 1) \<and>
   attendances (scenario\<lparr>attendances := []\<rparr>) = [] \<and>
   is_finite (grossMonthly (calculateMonthlySalary (scenario\<lparr>attendances := []\<rparr>))) \<and>
   fullDays (calculateMonthlySalary (scenario\<lparr>attendances := []\<rparr>)) = 0 \<and>
   halfDays (calculateMonthlySalary (scenario\<lparr>attendances := []\<rparr>)) = 0 \<and>
   num_eq (totalSalary (calculateMonthlySalary (scenario\<lparr>attendances := []\<rparr>))) (Fin 0)"
  using C7_empty_attendance [of "scenario\<lparr>attendances := []\<rparr>"]
  by (simp add: scenario_gross scenario_fields num_ge_def)

text \<open>Without the finite gross the total salary need not be 0: with a basic salary and
  a house rent allowance of \<open>2 ^ 1023\<close> each, the gross is infinite, so is the daily wage,
  and 0 times infinity is NaN.\<close>

theorem C7_empty_attendance_counterexample:
  "is_double (basic overflow_params) \<and> is_double (hra overflow_params) \<and>
   is_double (allowances overflow_params) \<and>
   num_ge (workingDaysInMonth overflow_params) (Fin 1) \<and>
   attendances overflow_params = [] \<and>
   totalSalary (calculateMonthlySalary overflow_params) = NaN \<and>
   \<not> num_eq (totalSalary (calculateMonthlySalary overflow_params)) (Fin 0)"
proof -
  have "is_double (Fin 0)" by (simp add: is_double_def rnd_zero zero_of_def)
  then show ?thesis
    using huge_is_double
    by (simp add: overflow_total num_eq_def) (simp add: overflow_params_def num_ge_def)
qed

text \<open>
  Claim C8. The full days and the half days together are at most the number of
  attendance records with hoursWorked > 0.
\<close>

theorem C8_counted_days_bound:
  "fullDays (calculateMonthlySalary params) + halfDays (calculateMonthlySalary params) \<le>
     length (filter (\<lambda>a. num_gt (hoursWorked a) (Fin 0)) (attendances params))"
proof -
  have "length (filter (\<lambda>a. num_ge (hoursWorked a) (Fin 8)) as) +
        length (filter (\<lambda>a. \<not> num_ge (hoursWorked a) (Fin 8) \<and> num_gt (hoursWorked a) (Fin 0)) as)
        \<le> length (filter (\<lambda>a. num_gt (hoursWorked a) (Fin 0)) as)"
    for as :: "Attendance list"
    by (induction as) (auto dest: num_ge_8_gt_0)
  then show ?thesis by (simp only: fullDays_eq halfDays_eq)
qed

text \<open>
  Claim C9. The static slab table is the default table: up to 250000 at rate 0, up to
  500000 at rate 0.05, up to 1000000 at rate 0.2 and unbounded at rate 0.3 (the rates
  being the binary64 values of these literals). Its bounded upper bounds increase
  strictly from above 0 and only its last slab is unbounded, so the slabs are contiguous
  and cover everything from 0 on; its rates are non-decreasing.
\<close>

theorem C9_slab_table:
  "TAX_SLABS =
     [\<lparr>upto = Some (Fin 250000), rate = Fin 0\<rparr>,
      \<lparr>upto = Some (Fin 500000), rate = lit (5 / 100)\<rparr>,
      \<lparr>upto = Some (Fin 1000000), rate = lit (2 / 10)\<rparr>,
      \<lparr>upto = None, rate = lit (3 / 10)\<rparr>] \<and>
   map rate TAX_SLABS =
     [Fin 0,
      Fin (3602879701896397 / 72057594037927936),
      Fin (3602879701896397 / 18014398509481984),
      Fin (5404319552844595 / 18014398509481984)] \<and>
   slab_bounds_ok (Fin 0) TAX_SLABS \<and>
   sorted_wrt num_le (map rate TAX_SLABS)"
  by (simp add: TAX_SLABS_def lits)

text \<open>
  Claim C10. The attendance loop handles every number, negative ones, infinities and NaN
  included: the full days and the half days together are exactly the number of records
  with hoursWorked > 0; one more record with hoursWorked <= 0 changes neither count, and
  one more record with hoursWorked > 0 adds one to exactly one of the two counts.
\<close>

theorem C10_counted_days_exact:
  "fullDays (calculateMonthlySalary params) + halfDays (calculateMonthlySalary params) =
     length (filter (\<lambda>a. num_gt (hoursWorked a) (Fin 0)) (attendances params)) \<and>
   (num_le (hoursWorked a) (Fin 0) \<longrightarrow>
      fullDays (calculateMonthlySalary (params\<lparr>attendances := xs @ a # ys\<rparr>)) =
        fullDays (calculateMonthlySalary (params\<lparr>attendances := xs @ ys\<rparr>)) \<and>
      halfDays (calculateMonthlySalary (params\<lparr>attendances := xs @ a # ys\<rparr>)) =
        halfDays (calculateMonthlySalary (params\<lparr>attendances := xs @ ys\<rparr>))) \<and>
   (num_gt (hoursWorked a) (Fin 0) \<longrightarrow>
      (fullDays (calculateMonthlySalary (params\<lparr>attendances := xs @ a # ys\<rparr>)) =
         fullDays (calculateMonthlySalary (params\<lparr>attendances := xs @ ys\<rparr>)) + 1 \<and>
       halfDays (calculateMonthlySalary (params\<lparr>attendances := xs @ a # ys\<rparr>)) =
         halfDays (calculateMonthlySalary (params\<lparr>attendances := xs @ ys\<rparr>))) \<or>
      (fullDays (calculateMonthlySalary (params\<lparr>attendances := xs @ a # ys\<rparr>)) =
         fullDays (calculateMonthlySalary (params\<lparr>attendances := xs @ ys\<rparr>)) \<and>
       halfDays (calculateMonthlySalary (params\<lparr>attendances := xs @ a # ys\<rparr>)) =
         halfDays (calculateMonthlySalary (params\<lparr>attendances := xs @ ys\<rparr>)) + 1))"
  using num_le_0_absent [of "hoursWorked a"] counted_days_eq [of "attendances params"]
  by (auto simp add: fullDays_eq halfDays_eq)

theorem C10_counted_days_exact_witness:
  "num_le (hoursWorked \<lparr>date = ''2024-01-03'', hoursWorked = Fin (- 3)\<rparr>) (Fin 0) \<and>
   fullDays (calculateMonthlySalary
     (scenario\<lparr>attendances := [] @ \<lparr>date = ''2024-01-03'', hoursWorked = Fin (- 3)\<rparr> # []\<rparr>)) =
     fullDays (calculateMonthlySalary (scenario\<lparr>attendances := [] @ []\<rparr>)) \<and>
   halfDays (calculateMonthlySalary
     (scenario\<lparr>attendances := [] @ \<lparr>date = ''2024-01-03'', hoursWorked = Fin (- 3)\<rparr> # []\<rparr>)) =
     halfDays (calculateMonthlySalary (scenario\<lparr>attendances := [] @ []\<rparr>)) \<and>
   num_gt (hoursWorked \<lparr>date = ''2024-01-03'', hoursWorked = Fin 5\<rparr>) (Fin 0) \<and>
   fullDays (calculateMonthlySalary
     (scenario\<lparr>attendances := [] @ \<lparr>date = ''2024-01-03'', hoursWorked = Fin 5\<rparr> # []\<rparr>)) +
   halfDays (calculateMonthlySalary
     (scenario\<lparr>attendances := [] @ \<lparr>date = ''2024-01-03'', hoursWorked = Fin 5\<rparr> # []\<rparr>)) =
     fullDays (calculateMonthlySalary (scenario\<lparr>attendances := [] @ []\<rparr>)) +
     halfDays (calculateMonthlySalary (scenario\<lparr>attendances := [] @ []\<rparr>)) + 1"
  using
    C10_counted_days_exact [where a = "\<lparr>date = ''2024-01-03'', hoursWorked = Fin (- 3)\<rparr>"
      and params = scenario and xs = "[]" and ys = "[]"]
    C10_counted_days_exact [where a = "\<lparr>date = ''2024-01-03'', hoursWorked = Fin 5\<rparr>"
      and params = scenario and xs = "[]" and ys = "[]"]
  by (auto simp add: num_gt_def)

end
